theory Spec2Isabelle
  imports Complex_Main "HOL-Library.AList" "HOL-Library.Char_ord" "HOL-Library.List_Lexorder"
begin

section \<open>The NetBox object model of \<^verbatim>\<open>module/netbox/object_classes.py\<close>\<close>

text \<open>
  A shallow embedding of the schema-validated object model: the class table (one schema per
  entity type), the slug formatter, the display name of an entity, relation resolution, the
  tag and VLAN compilers, and \<^verbatim>\<open>NetBoxObject.update\<close> with the three overrides of
  \<^verbatim>\<open>NBVLAN\<close>, \<^verbatim>\<open>NBPrefix\<close> and \<^verbatim>\<open>NBIPAddress\<close>.

  Entities live in an explicit store; a handle is an address into it. Every \<^verbatim>\<open>raise\<close>
  and the process exit are values of the type \<open>exn\<close>; a function that mutates an entity
  returns the store it leaves behind together with its result, also when the result is an
  exception, since Python keeps the mutations made before a \<^verbatim>\<open>raise\<close>.
\<close>

subsection \<open>Entity types and values\<close>

text \<open>The direct subclasses of \<^verbatim>\<open>NetBoxObject\<close> and of \<^verbatim>\<open>NBObjectList\<close>.\<close>

datatype cls =
    NBTag | NBTenant | NBSite | NBVRF | NBVLAN | NBPrefix | NBManufacturer | NBDeviceType
  | NBPlatform | NBClusterType | NBClusterGroup | NBDeviceRole | NBCluster | NBDevice | NBVM
  | NBVMInterface | NBInterface | NBIPAddress

datatype lcls = NBTagList | NBVLANList

text \<open>
  A handle to an entity: its class (fixed at creation, so \<^verbatim>\<open>isinstance\<close> and
  \<^verbatim>\<open>type\<close> need no store) and its identity.
\<close>

datatype ref = Ref cls nat

fun ref_cls :: "ref \<Rightarrow> cls" where
  "ref_cls (Ref c n) = c"

text \<open>
  A Python float: a finite value (as the rational it denotes), the negative zero, the
  infinities and NaN.
\<close>

datatype pyfloat = Finite rat | NegZero | PosInf | NegInf | NaN

text \<open>
  The values an attribute or a raw data mapping can hold: JSON-like data (a \<^verbatim>\<open>dict\<close> is
  an association list in insertion order, its keys strings), an IP network of the
  \<^verbatim>\<open>ipaddress\<close> module (by its text), a handle, and an \<^verbatim>\<open>NBObjectList\<close> instance.
  Strings are lists of 8-bit characters.
\<close>

datatype pyval =
    PNone
  | PBool bool
  | PInt int
  | PFloat pyfloat
  | PStr string
  | PDict "(string \<times> pyval) list"
  | PList "pyval list"
  | PNet string
  | PObj ref
  | PObjList lcls "pyval list"

type_synonym pydict = "(string \<times> pyval) list"

datatype exn =
    AttributeError | TypeError | ValueError | OverflowError | RecursionError
  | SystemExit | InvalidHandle | OtherError string

text \<open>
  \<open>SystemExit\<close> is the process exit of \<^verbatim>\<open>do_error_exit\<close>; \<open>InvalidHandle\<close> is the
  model's answer to a handle that is not in the store (no Python state has one);
  \<open>OtherError\<close> is left to the inventory.
\<close>

text \<open>
  The log: one record per call of the logger, with its level. The message texts are not
  rendered; a change record keeps the two strings the code computes for it.
\<close>

datatype level = Debug2 | Info | Error

datatype event =
    Parsing pyval
  | UndefinedKey string
  | UnsetKey string
  | InvalidStr string
  | InvalidChoice string
  | InvalidType string
  | Changed string string string
  | NoSecondKey string
  | WrongRelations
  | ResolveProblem string
  | CompilingTags
  | CompilingVlans
  | VlanUnparsable
  | TagsAction bool
  | TagsChanged
  | SettingNone string
  | InvalidObjectType
  | PrefixUnparsable

type_synonym log = "(level \<times> event) list"

subsection \<open>The schema of each entity type\<close>

text \<open>
  The value of a \<^verbatim>\<open>data_model\<close> entry: an \<^verbatim>\<open>int\<close> instance (the maximal length of a
  string), one of the classes \<^verbatim>\<open>int\<close>, \<^verbatim>\<open>str\<close>, \<^verbatim>\<open>bool\<close>, \<^verbatim>\<open>float\<close>,
  \<^verbatim>\<open>object\<close>, a subclass of \<^verbatim>\<open>NetBoxObject\<close> or of \<^verbatim>\<open>NBObjectList\<close>, or a list:
  of strings, of entity classes, or the pair of the two IP network classes.
\<close>

datatype dtype =
    MaxLen nat
  | TInt | TStr | TBool | TFloat | TObject
  | TClass cls
  | TListClass lcls
  | TChoice "string list"
  | TClassChoice "cls list"
  | TNetChoice

fun member_type :: "lcls \<Rightarrow> cls" where
  "member_type NBTagList = NBTag"
| "member_type NBVLANList = NBVLAN"

fun primary_key :: "cls \<Rightarrow> string" where
  "primary_key NBVLAN = ''vid''"
| "primary_key NBPrefix = ''prefix''"
| "primary_key NBDeviceType = ''model''"
| "primary_key NBIPAddress = ''address''"
| "primary_key _ = ''name''"

fun secondary_key :: "cls \<Rightarrow> string option" where
  "secondary_key NBVLAN = Some ''name''"
| "secondary_key NBDevice = Some ''site''"
| "secondary_key NBVM = Some ''cluster''"
| "secondary_key NBVMInterface = Some ''virtual_machine''"
| "secondary_key NBInterface = Some ''device''"
| "secondary_key _ = None"

fun enforce_secondary_key :: "cls \<Rightarrow> bool" where
  "enforce_secondary_key NBVLAN = True"
| "enforce_secondary_key NBVMInterface = True"
| "enforce_secondary_key NBInterface = True"
| "enforce_secondary_key _ = False"

fun data_model :: "cls \<Rightarrow> (string \<times> dtype) list" where
  "data_model NBTag =
     [(''name'', MaxLen 100), (''slug'', MaxLen 100), (''color'', MaxLen 6),
      (''description'', MaxLen 200)]"
| "data_model NBTenant =
     [(''name'', MaxLen 30), (''slug'', MaxLen 50), (''comments'', TStr),
      (''description'', MaxLen 200), (''tags'', TListClass NBTagList)]"
| "data_model NBSite =
     [(''name'', MaxLen 50), (''slug'', MaxLen 50), (''comments'', TStr),
      (''tenant'', TClass NBTenant), (''tags'', TListClass NBTagList)]"
| "data_model NBVRF =
     [(''name'', MaxLen 50), (''description'', MaxLen 200), (''tenant'', TClass NBTenant),
      (''tags'', TListClass NBTagList)]"
| "data_model NBVLAN =
     [(''vid'', TInt), (''name'', MaxLen 64), (''site'', TClass NBSite),
      (''description'', MaxLen 200), (''tenant'', TClass NBTenant),
      (''tags'', TListClass NBTagList)]"
| "data_model NBPrefix =
     [(''prefix'', TNetChoice), (''site'', TClass NBSite), (''tenant'', TClass NBTenant),
      (''vlan'', TClass NBVLAN), (''vrf'', TClass NBVRF), (''description'', MaxLen 200),
      (''tags'', TListClass NBTagList)]"
| "data_model NBManufacturer =
     [(''name'', MaxLen 50), (''slug'', MaxLen 50), (''description'', MaxLen 200)]"
| "data_model NBDeviceType =
     [(''model'', MaxLen 50), (''slug'', MaxLen 50), (''part_number'', MaxLen 50),
      (''description'', MaxLen 200), (''manufacturer'', TClass NBManufacturer),
      (''tags'', TListClass NBTagList)]"
| "data_model NBPlatform =
     [(''name'', MaxLen 100), (''slug'', MaxLen 100), (''manufacturer'', TClass NBManufacturer),
      (''description'', MaxLen 200)]"
| "data_model NBClusterType =
     [(''name'', MaxLen 50), (''slug'', MaxLen 50), (''description'', MaxLen 200)]"
| "data_model NBClusterGroup =
     [(''name'', MaxLen 50), (''slug'', MaxLen 50), (''description'', MaxLen 200)]"
| "data_model NBDeviceRole =
     [(''name'', MaxLen 50), (''slug'', MaxLen 50), (''color'', MaxLen 6),
      (''description'', MaxLen 200), (''vm_role'', TBool)]"
| "data_model NBCluster =
     [(''name'', MaxLen 100), (''comments'', TStr), (''type'', TClass NBClusterType),
      (''group'', TClass NBClusterGroup), (''site'', TClass NBSite),
      (''tags'', TListClass NBTagList)]"
| "data_model NBDevice =
     [(''name'', MaxLen 64), (''device_type'', TClass NBDeviceType),
      (''device_role'', TClass NBDeviceRole), (''platform'', TClass NBPlatform),
      (''serial'', MaxLen 50), (''site'', TClass NBSite),
      (''status'', TChoice [''offline'', ''active'', ''planned'', ''staged'', ''failed'',
                            ''inventory'', ''decommissioning'']),
      (''cluster'', TClass NBCluster), (''asset_tag'', MaxLen 50),
      (''primary_ip4'', TObject), (''primary_ip6'', TObject),
      (''tags'', TListClass NBTagList), (''tenant'', TClass NBTenant)]"
| "data_model NBVM =
     [(''name'', MaxLen 64),
      (''status'', TChoice [''offline'', ''active'', ''planned'', ''staged'', ''failed'',
                            ''decommissioning'']),
      (''cluster'', TClass NBCluster), (''role'', TClass NBDeviceRole),
      (''platform'', TClass NBPlatform), (''vcpus'', TFloat), (''memory'', TInt),
      (''disk'', TInt), (''comments'', TStr), (''primary_ip4'', TObject),
      (''primary_ip6'', TObject), (''tags'', TListClass NBTagList),
      (''tenant'', TClass NBTenant)]"
| "data_model NBVMInterface =
     [(''name'', MaxLen 64), (''virtual_machine'', TClass NBVM), (''enabled'', TBool),
      (''mac_address'', TStr), (''mtu'', TInt),
      (''mode'', TChoice [''access'', ''tagged'', ''tagged-all'']),
      (''untagged_vlan'', TClass NBVLAN), (''tagged_vlans'', TListClass NBVLANList),
      (''description'', MaxLen 200), (''tags'', TListClass NBTagList)]"
| "data_model NBInterface =
     [(''name'', MaxLen 64), (''device'', TClass NBDevice), (''label'', MaxLen 64),
      (''type'', TChoice [''virtual'', ''100base-tx'', ''1000base-t'', ''10gbase-t'',
                          ''25gbase-x-sfp28'', ''40gbase-x-qsfpp'', ''other'']),
      (''enabled'', TBool), (''mac_address'', TStr), (''mgmt_only'', TBool), (''mtu'', TInt),
      (''mode'', TChoice [''access'', ''tagged'', ''tagged-all'']),
      (''untagged_vlan'', TClass NBVLAN), (''tagged_vlans'', TListClass NBVLANList),
      (''description'', MaxLen 200), (''connection_status'', TBool),
      (''tags'', TListClass NBTagList)]"
| "data_model NBIPAddress =
     [(''address'', TStr),
      (''assigned_object_type'', TChoice [''dcim.interface'', ''virtualization.vminterface'']),
      (''assigned_object_id'', TClassChoice [NBInterface, NBVMInterface]),
      (''description'', MaxLen 200), (''dns_name'', MaxLen 255),
      (''tags'', TListClass NBTagList), (''tenant'', TClass NBTenant),
      (''vrf'', TClass NBVRF)]"

text \<open>
  \<^verbatim>\<open>NBIPAddress.data_model_relation.get\<close>, read with a value (the key of a mapping must
  be hashable) and with the type of a handle.
\<close>

fun relation_of_type :: "pyval \<Rightarrow> exn + cls option" where
  "relation_of_type (PStr s) =
     Inr (if s = ''dcim.interface'' then Some NBInterface
          else if s = ''virtualization.vminterface'' then Some NBVMInterface else None)"
| "relation_of_type (PDict d) = Inl TypeError"
| "relation_of_type (PList xs) = Inl TypeError"
| "relation_of_type (PObjList l xs) = Inl TypeError"
| "relation_of_type _ = Inr None"

fun relation_of_class :: "cls \<Rightarrow> pyval" where
  "relation_of_class NBInterface = PStr ''dcim.interface''"
| "relation_of_class NBVMInterface = PStr ''virtualization.vminterface''"
| "relation_of_class _ = PNone"

subsection \<open>Entities and the store\<close>

type_synonym source = nat

text \<open>The instance attributes of \<^verbatim>\<open>default_attributes\<close> (the inventory handle apart).\<close>

record obj =
  data :: pydict
  is_new :: bool
  nb_id :: pyval
  updated_items :: "string list"
  unset_items :: "string list"
  source :: "source option"

type_synonym heap = "(ref \<times> obj) list"

definition dict_get :: "pydict \<Rightarrow> string \<Rightarrow> pyval" where
  "dict_get d k = (case map_of d k of None \<Rightarrow> PNone | Some v \<Rightarrow> v)"

definition dict_set :: "string \<Rightarrow> pyval \<Rightarrow> pydict \<Rightarrow> pydict" where
  "dict_set k v d = AList.update k v d"

subsection \<open>The slug formatter\<close>

definition permitted_chars :: string where
  "permitted_chars = ''abcdefghijklmnopqrstuvwxyz'' @ ''0123456789'' @ ''_-''"

text \<open>
  \<^verbatim>\<open>str.lower\<close> on 8-bit characters: the letters A to Z and the capital letters of
  Latin-1 have a lower-case form, every other character is kept.
\<close>

definition upper_table :: "(char \<times> char) list" where
  "upper_table = zip ''ABCDEFGHIJKLMNOPQRSTUVWXYZ'' ''abcdefghijklmnopqrstuvwxyz'' @
     zip [CHR 0xC0, CHR 0xC1, CHR 0xC2, CHR 0xC3, CHR 0xC4, CHR 0xC5, CHR 0xC6, CHR 0xC7,
          CHR 0xC8, CHR 0xC9, CHR 0xCA, CHR 0xCB, CHR 0xCC, CHR 0xCD, CHR 0xCE, CHR 0xCF,
          CHR 0xD0, CHR 0xD1, CHR 0xD2, CHR 0xD3, CHR 0xD4, CHR 0xD5, CHR 0xD6,
          CHR 0xD8, CHR 0xD9, CHR 0xDA, CHR 0xDB, CHR 0xDC, CHR 0xDD, CHR 0xDE]
         [CHR 0xE0, CHR 0xE1, CHR 0xE2, CHR 0xE3, CHR 0xE4, CHR 0xE5, CHR 0xE6, CHR 0xE7,
          CHR 0xE8, CHR 0xE9, CHR 0xEA, CHR 0xEB, CHR 0xEC, CHR 0xED, CHR 0xEE, CHR 0xEF,
          CHR 0xF0, CHR 0xF1, CHR 0xF2, CHR 0xF3, CHR 0xF4, CHR 0xF5, CHR 0xF6,
          CHR 0xF8, CHR 0xF9, CHR 0xFA, CHR 0xFB, CHR 0xFC, CHR 0xFD, CHR 0xFE]"

definition lower_char :: "char \<Rightarrow> char" where
  "lower_char c = (case map_of upper_table c of Some d \<Rightarrow> d | None \<Rightarrow> c)"

definition replace_sep :: "char \<Rightarrow> char" where
  "replace_sep c = (if c \<in> set '' ,.'' then CHR ''-'' else c)"

text \<open>
  \<^verbatim>\<open>format_slug\<close> on a string and a maximal length: the argument error for the empty
  string, else separators replaced, lower case, the other characters dropped, truncated.
\<close>

definition format_slug_str :: "string \<Rightarrow> nat \<Rightarrow> exn + string" where
  "format_slug_str text max_len =
     (if length text = 0 then Inl AttributeError
      else Inr (take max_len
                  (filter (\<lambda>c. c \<in> set permitted_chars)
                     (map lower_char (map replace_sep text)))))"

text \<open>
  \<^verbatim>\<open>format_slug\<close> on any value: \<^verbatim>\<open>None\<close> is refused; \<^verbatim>\<open>len\<close> raises on a value
  without a length; a list or a mapping is refused when empty and has no \<^verbatim>\<open>replace\<close>
  otherwise.
\<close>

fun format_slug :: "pyval \<Rightarrow> nat \<Rightarrow> exn + string" where
  "format_slug (PStr text) max_len = format_slug_str text max_len"
| "format_slug PNone max_len = Inl AttributeError"
| "format_slug (PDict d) max_len = Inl AttributeError"
| "format_slug (PList xs) max_len = Inl AttributeError"
| "format_slug (PObjList l xs) max_len = Inl AttributeError"
| "format_slug _ max_len = Inl TypeError"

subsection \<open>Python builtins\<close>

definition digit_char :: "nat \<Rightarrow> char" where
  "digit_char n = ''0123456789'' ! n"

fun str_of_nat :: "nat \<Rightarrow> string" where
  "str_of_nat n = (if n < 10 then [digit_char n] else str_of_nat (n div 10) @ [digit_char (n mod 10)])"

declare str_of_nat.simps [simp del]

definition str_of_int :: "int \<Rightarrow> string" where
  "str_of_int i = (if i < 0 then CHR ''-'' # str_of_nat (nat (- i)) else str_of_nat (nat i))"

definition starts_with :: "string \<Rightarrow> string \<Rightarrow> bool" where
  "starts_with p s = (take (length p) s = p)"

text \<open>\<^verbatim>\<open>isinstance\<close> for the types the code asks about (\<^verbatim>\<open>bool\<close> is a subclass of \<^verbatim>\<open>int\<close>).\<close>

fun is_str :: "pyval \<Rightarrow> bool" where
  "is_str (PStr s) = True"
| "is_str _ = False"

fun is_bool :: "pyval \<Rightarrow> bool" where
  "is_bool (PBool b) = True"
| "is_bool _ = False"

fun is_int :: "pyval \<Rightarrow> bool" where
  "is_int (PInt i) = True"
| "is_int (PBool b) = True"
| "is_int _ = False"

fun is_int_or_float :: "pyval \<Rightarrow> bool" where
  "is_int_or_float (PInt i) = True"
| "is_int_or_float (PBool b) = True"
| "is_int_or_float (PFloat f) = True"
| "is_int_or_float _ = False"

fun is_dict :: "pyval \<Rightarrow> bool" where
  "is_dict (PDict d) = True"
| "is_dict _ = False"

fun is_list :: "pyval \<Rightarrow> bool" where
  "is_list (PList xs) = True"
| "is_list (PObjList l xs) = True"
| "is_list _ = False"

fun is_netbox_object :: "pyval \<Rightarrow> bool" where
  "is_netbox_object (PObj r) = True"
| "is_netbox_object _ = False"

fun is_instance :: "pyval \<Rightarrow> cls \<Rightarrow> bool" where
  "is_instance (PObj r) c = (ref_cls r = c)"
| "is_instance _ c = False"

text \<open>
  Python's \<^verbatim>\<open>==\<close>. Numbers compare by value across \<^verbatim>\<open>bool\<close>, \<^verbatim>\<open>int\<close> and
  \<^verbatim>\<open>float\<close>, NaN equals nothing; a mapping equals a mapping with the same keys and equal
  values, in any order; a list equals a list with equal members (an \<^verbatim>\<open>NBObjectList\<close> is a
  list); handles compare by identity, as \<^verbatim>\<open>NetBoxObject\<close> defines no \<^verbatim>\<open>__eq__\<close>.
\<close>

fun float_val :: "pyfloat \<Rightarrow> rat option" where
  "float_val (Finite r) = Some r"
| "float_val NegZero = Some 0"
| "float_val _ = None"

fun float_eq :: "pyfloat \<Rightarrow> pyfloat \<Rightarrow> bool" where
  "float_eq NaN b = False"
| "float_eq a NaN = False"
| "float_eq PosInf b = (b = PosInf)"
| "float_eq NegInf b = (b = NegInf)"
| "float_eq a b = (case float_val b of None \<Rightarrow> False | Some y \<Rightarrow> float_val a = Some y)"

fun int_of_bool :: "bool \<Rightarrow> int" where
  "int_of_bool True = 1"
| "int_of_bool False = 0"

fun num_eq_int :: "int \<Rightarrow> pyval \<Rightarrow> bool" where
  "num_eq_int i (PInt j) = (i = j)"
| "num_eq_int i (PBool b) = (i = int_of_bool b)"
| "num_eq_int i (PFloat f) = (float_val f = Some (of_int i))"
| "num_eq_int i _ = False"

fun py_eq :: "pyval \<Rightarrow> pyval \<Rightarrow> bool"
  and py_eq_list :: "pyval list \<Rightarrow> pyval list \<Rightarrow> bool"
  and py_eq_items :: "pydict \<Rightarrow> pydict \<Rightarrow> bool"
where
  "py_eq PNone b = (b = PNone)"
| "py_eq (PBool x) b = num_eq_int (int_of_bool x) b"
| "py_eq (PInt i) b = num_eq_int i b"
| "py_eq (PFloat f) b =
     (case b of PFloat g \<Rightarrow> float_eq f g | PInt j \<Rightarrow> float_val f = Some (of_int j)
      | PBool y \<Rightarrow> float_val f = Some (of_int (int_of_bool y)) | _ \<Rightarrow> False)"
| "py_eq (PStr s) b = (b = PStr s)"
| "py_eq (PNet s) b = (b = PNet s)"
| "py_eq (PObj r) b = (b = PObj r)"
| "py_eq (PDict d) b =
     (case b of PDict e \<Rightarrow> length d = length e \<and> py_eq_items d e | _ \<Rightarrow> False)"
| "py_eq (PList xs) b =
     (case b of PList ys \<Rightarrow> py_eq_list xs ys | PObjList l ys \<Rightarrow> py_eq_list xs ys | _ \<Rightarrow> False)"
| "py_eq (PObjList l xs) b =
     (case b of PList ys \<Rightarrow> py_eq_list xs ys | PObjList m ys \<Rightarrow> py_eq_list xs ys | _ \<Rightarrow> False)"
| "py_eq_list [] ys = (ys = [])"
| "py_eq_list (x # xs) ys =
     (case ys of [] \<Rightarrow> False | y # ys' \<Rightarrow> py_eq x y \<and> py_eq_list xs ys')"
| "py_eq_items [] e = True"
| "py_eq_items (kv # d) e =
     ((case map_of e (fst kv) of None \<Rightarrow> False | Some w \<Rightarrow> py_eq (snd kv) w) \<and> py_eq_items d e)"

text \<open>\<^verbatim>\<open>x in xs\<close> for a list \<open>xs\<close>.\<close>

definition py_in :: "pyval \<Rightarrow> pyval list \<Rightarrow> bool" where
  "py_in x xs = list_ex (\<lambda>y. py_eq x y) xs"

subsection \<open>The runtime: the builtins that are not modelled, and the inventory\<close>

text \<open>
  The parts of Python and of the repository that the source uses and this theory does not
  define are the fields of a record that every function takes:
  \<^item> \<^verbatim>\<open>str\<close> on a float, a container, an IP network or an entity (whose \<^verbatim>\<open>__str__\<close> is
    a JSON rendering), which reads the store and can raise;
  \<^item> \<^verbatim>\<open>float\<close> on an integer beyond \<open>2 ^ 53\<close> (it rounds or overflows) and on a string;
  \<^item> \<^verbatim>\<open>sorted\<close> on a list that is not a list of strings;
  \<^item> iterating an IP network, and \<^verbatim>\<open>ipaddress.ip_network\<close>;
  \<^item> the recursion limit of the interpreter;
  \<^item> the inventory (\<^verbatim>\<open>module/netbox/inventory.py\<close>, not among the sources): get-or-create
    \<^verbatim>\<open>add_update_object\<close>, which may change the store, and the two lookups
    \<^verbatim>\<open>get_by_data\<close> and \<^verbatim>\<open>get_by_id\<close>, which create nothing.
\<close>

record runtime =
  rt_str :: "heap \<Rightarrow> pyval \<Rightarrow> exn + string"
  rt_float_of_int :: "int \<Rightarrow> exn + pyfloat"
  rt_float_of_str :: "string \<Rightarrow> exn + pyfloat"
  rt_sorted :: "pyval list \<Rightarrow> exn + pyval list"
  rt_iter_net :: "string \<Rightarrow> exn + pyval list"
  rt_ip_network :: "pyval \<Rightarrow> exn + pyval"
  rt_limit :: nat
  add_update_object :: "cls option \<Rightarrow> pyval \<Rightarrow> source option \<Rightarrow> heap \<Rightarrow> (exn + pyval) \<times> heap"
  get_by_data :: "cls \<Rightarrow> pyval \<Rightarrow> heap \<Rightarrow> exn + pyval"
  get_by_id :: "cls option \<Rightarrow> pyval \<Rightarrow> heap \<Rightarrow> exn + pyval"

text \<open>\<^verbatim>\<open>float(x)\<close>.\<close>

fun py_float :: "runtime \<Rightarrow> pyval \<Rightarrow> exn + pyfloat" where
  "py_float rt (PFloat f) = Inr f"
| "py_float rt (PBool b) = Inr (Finite (of_int (int_of_bool b)))"
| "py_float rt (PInt i) =
     (if \<bar>i\<bar> \<le> 2 ^ 53 then Inr (Finite (of_int i)) else rt_float_of_int rt i)"
| "py_float rt (PStr s) = rt_float_of_str rt s"
| "py_float rt _ = Inl TypeError"

text \<open>\<^verbatim>\<open>sorted(xs)\<close>: by code point on strings; nothing is compared in a list of one.\<close>

fun the_str :: "pyval \<Rightarrow> string" where
  "the_str (PStr s) = s"
| "the_str _ = []"

definition py_sorted :: "runtime \<Rightarrow> pyval list \<Rightarrow> exn + pyval list" where
  "py_sorted rt xs =
     (if length xs \<le> 1 then Inr xs
      else if list_all is_str xs then Inr (map PStr (sort (map the_str xs)))
      else rt_sorted rt xs)"

text \<open>The members a \<^verbatim>\<open>for\<close> loop sees.\<close>

fun py_iter :: "runtime \<Rightarrow> pyval \<Rightarrow> exn + pyval list" where
  "py_iter rt (PList xs) = Inr xs"
| "py_iter rt (PObjList l xs) = Inr xs"
| "py_iter rt (PDict d) = Inr (map (\<lambda>kv. PStr (fst kv)) d)"
| "py_iter rt (PStr s) = Inr (map (\<lambda>c. PStr [c]) s)"
| "py_iter rt (PNet s) = rt_iter_net rt s"
| "py_iter rt _ = Inl TypeError"

subsection \<open>Computations on the store\<close>

text \<open>
  A method of an entity is a function from the store to its result, the store it leaves and
  the log records it wrote.
\<close>

type_synonym 'a st = "heap \<Rightarrow> (exn + 'a) \<times> heap \<times> log"

definition sreturn :: "'a \<Rightarrow> 'a st" where
  "sreturn x h = (Inr x, h, [])"

definition sraise :: "exn \<Rightarrow> 'a st" where
  "sraise e h = (Inl e, h, [])"

definition spure :: "exn + 'a \<Rightarrow> 'a st" where
  "spure r h = (r, h, [])"

definition slog :: "level \<Rightarrow> event \<Rightarrow> unit st" where
  "slog lv ev h = (Inr (), h, [(lv, ev)])"

definition sbind :: "'a st \<Rightarrow> ('a \<Rightarrow> 'b st) \<Rightarrow> 'b st" where
  "sbind m f h =
     (case m h of
        (Inl e, h1, l1) \<Rightarrow> (Inl e, h1, l1)
      | (Inr x, h1, l1) \<Rightarrow> (case f x h1 of (r, h2, l2) \<Rightarrow> (r, h2, l1 @ l2)))"

definition get_obj :: "ref \<Rightarrow> obj st" where
  "get_obj r h = (case map_of h r of None \<Rightarrow> (Inl InvalidHandle, h, []) | Some ob \<Rightarrow> (Inr ob, h, []))"

definition modify_obj :: "ref \<Rightarrow> (obj \<Rightarrow> obj) \<Rightarrow> unit st" where
  "modify_obj r f h =
     (case map_of h r of
        None \<Rightarrow> (Inl InvalidHandle, h, [])
      | Some ob \<Rightarrow> (Inr (), AList.update r (f ob) h, []))"

definition set_data :: "ref \<Rightarrow> string \<Rightarrow> pyval \<Rightarrow> unit st" where
  "set_data r k v = modify_obj r (\<lambda>ob. ob\<lparr>data := dict_set k v (data ob)\<rparr>)"

definition inv_add :: "runtime \<Rightarrow> cls option \<Rightarrow> pyval \<Rightarrow> source option \<Rightarrow> pyval st" where
  "inv_add rt c d src h = (case add_update_object rt c d src h of (r, h') \<Rightarrow> (r, h', []))"

definition inv_get_by_data :: "runtime \<Rightarrow> cls \<Rightarrow> pyval \<Rightarrow> pyval st" where
  "inv_get_by_data rt c d h = (get_by_data rt c d h, h, [])"

definition inv_get_by_id :: "runtime \<Rightarrow> cls option \<Rightarrow> pyval \<Rightarrow> pyval st" where
  "inv_get_by_id rt c i h = (get_by_id rt c i h, h, [])"

text \<open>\<^verbatim>\<open>str(v)\<close>, and the f-string \<^verbatim>\<open>f"{a} ({b})"\<close>.\<close>

definition py_str :: "runtime \<Rightarrow> pyval \<Rightarrow> string st" where
  "py_str rt v h =
     (case v of
        PNone \<Rightarrow> (Inr ''None'', h, [])
      | PBool b \<Rightarrow> (Inr (if b then ''True'' else ''False''), h, [])
      | PInt i \<Rightarrow> (Inr (str_of_int i), h, [])
      | PStr s \<Rightarrow> (Inr s, h, [])
      | _ \<Rightarrow> (rt_str rt h v, h, []))"

definition format_name :: "runtime \<Rightarrow> pyval \<Rightarrow> pyval \<Rightarrow> pyval st" where
  "format_name rt a b =
     sbind (py_str rt a) (\<lambda>sa. sbind (py_str rt b) (\<lambda>sb.
       sreturn (PStr (sa @ '' ('' @ sb @ '')''))))"

subsection \<open>The display name\<close>

text \<open>
  \<^verbatim>\<open>NetBoxObject.get_display_name\<close>. The two calls of \<^verbatim>\<open>get_display_name\<close> in its body
  (on the entity the secondary key refers to, and on the entity itself with a mapping) are
  dispatched on the class of their receiver; \<open>rec\<close> stands for that dispatch.
\<close>

definition this_data_set :: "ref \<Rightarrow> pydict option \<Rightarrow> pydict st" where
  "this_data_set self d =
     (case d of Some dd \<Rightarrow> sreturn dd | None \<Rightarrow> sbind (get_obj self) (\<lambda>ob. sreturn (data ob)))"

definition base_get_display_name ::
  "runtime \<Rightarrow> (ref \<Rightarrow> pydict option \<Rightarrow> bool \<Rightarrow> pyval st) \<Rightarrow> ref \<Rightarrow> pydict option \<Rightarrow> bool \<Rightarrow> pyval st"
where
  "base_get_display_name rt rec self d including_second_key =
     sbind (this_data_set self d) (\<lambda>this.
       let my_name = dict_get this (primary_key (ref_cls self)) in
       case secondary_key (ref_cls self) of
         None \<Rightarrow> sreturn my_name
       | Some sk \<Rightarrow>
           if my_name \<noteq> PNone \<and> (enforce_secondary_key (ref_cls self) \<or> including_second_key)
           then
             let secondary_key_value = dict_get this sk in
             sbind (py_str rt secondary_key_value) (\<lambda>org_secondary_key_value.
             sbind (case secondary_key_value of
                      PObj r \<Rightarrow> rec r None False
                    | _ \<Rightarrow> sreturn secondary_key_value) (\<lambda>v1.
             sbind (case v1 of
                      PDict dd \<Rightarrow> rec self (Some dd) False
                    | _ \<Rightarrow> sreturn v1) (\<lambda>v2.
             sbind (if v2 = PNone
                    then sbind (slog Error (NoSecondKey sk)) (\<lambda>_. slog Error WrongRelations)
                    else sreturn ()) (\<lambda>_.
             format_name rt my_name v2))))
           else sreturn my_name)"

text \<open>\<^verbatim>\<open>NBVLAN.get_display_name\<close>: the site, when there is one, takes the place of the name.\<close>

definition vlan_get_display_name ::
  "runtime \<Rightarrow> (ref \<Rightarrow> pydict option \<Rightarrow> bool \<Rightarrow> pyval st) \<Rightarrow> ref \<Rightarrow> pydict option \<Rightarrow> bool \<Rightarrow> pyval st"
where
  "vlan_get_display_name rt rec self d including_second_key =
     sbind (base_get_display_name rt rec self d including_second_key) (\<lambda>my_name.
     sbind (this_data_set self d) (\<lambda>this.
       let this_site = dict_get this ''site'' in
       if this_site \<noteq> PNone then
         let vlan_id = dict_get this (primary_key (ref_cls self)) in
         sbind (case this_site of PObj r \<Rightarrow> rec r None False | _ \<Rightarrow> sreturn PNone) (\<lambda>n1.
           let site_name = (case this_site of PDict sd \<Rightarrow> dict_get sd ''name'' | _ \<Rightarrow> n1) in
           if site_name \<noteq> PNone then format_name rt vlan_id site_name else sreturn my_name)
       else sreturn my_name))"

text \<open>
  The method as called: every call takes one frame of the interpreter's stack, and a chain
  of entities that refer to each other without end stops with \<^verbatim>\<open>RecursionError\<close>.
\<close>

primrec display_name_depth :: "runtime \<Rightarrow> nat \<Rightarrow> ref \<Rightarrow> pydict option \<Rightarrow> bool \<Rightarrow> pyval st" where
  "display_name_depth rt 0 = (\<lambda>self d inc. sraise RecursionError)"
| "display_name_depth rt (Suc n) =
     (\<lambda>self d inc.
        if ref_cls self = NBVLAN then vlan_get_display_name rt (display_name_depth rt n) self d inc
        else base_get_display_name rt (display_name_depth rt n) self d inc)"

definition get_display_name :: "runtime \<Rightarrow> ref \<Rightarrow> pydict option \<Rightarrow> bool \<Rightarrow> pyval st" where
  "get_display_name rt = display_name_depth rt (rt_limit rt)"

text \<open>
  \<^verbatim>\<open>x.get_display_name()\<close> on any value: the method of an entity, the sorted names of the
  members for an \<^verbatim>\<open>NBObjectList\<close>, and no such attribute otherwise.
\<close>

fun value_display_name :: "runtime \<Rightarrow> pyval \<Rightarrow> pyval st"
  and member_display_names :: "runtime \<Rightarrow> pyval list \<Rightarrow> pyval list st"
where
  "value_display_name rt (PObj r) = get_display_name rt r None False"
| "value_display_name rt (PObjList l xs) =
     sbind (member_display_names rt xs) (\<lambda>names.
     sbind (spure (py_sorted rt names)) (\<lambda>sorted_names. sreturn (PList sorted_names)))"
| "value_display_name rt PNone = sraise AttributeError"
| "value_display_name rt (PBool b) = sraise AttributeError"
| "value_display_name rt (PInt i) = sraise AttributeError"
| "value_display_name rt (PFloat f) = sraise AttributeError"
| "value_display_name rt (PStr s) = sraise AttributeError"
| "value_display_name rt (PDict d) = sraise AttributeError"
| "value_display_name rt (PList xs) = sraise AttributeError"
| "value_display_name rt (PNet s) = sraise AttributeError"
| "member_display_names rt [] = sreturn []"
| "member_display_names rt (x # xs) =
     sbind (value_display_name rt x) (\<lambda>n.
     sbind (member_display_names rt xs) (\<lambda>ns. sreturn (n # ns)))"

subsection \<open>Relation resolution\<close>

text \<open>The loop over the members of a list attribute in \<^verbatim>\<open>resolve_relations\<close>.\<close>

fun resolve_members :: "runtime \<Rightarrow> cls \<Rightarrow> pyval list \<Rightarrow> pyval list st" where
  "resolve_members rt c [] = sreturn []"
| "resolve_members rt c (item # items) =
     sbind (if is_instance item c then sreturn item else inv_get_by_data rt c item) (\<lambda>item_object.
     sbind (resolve_members rt c items) (\<lambda>rest.
       sreturn (if item_object \<noteq> PNone then item_object # rest else rest)))"

text \<open>The body of the loop of \<^verbatim>\<open>NetBoxObject.resolve_relations\<close>, for one entry of the schema.\<close>

definition resolve_key :: "runtime \<Rightarrow> ref \<Rightarrow> string \<times> dtype \<Rightarrow> unit st" where
  "resolve_key rt self kd =
     sbind (get_obj self) (\<lambda>ob.
       let key = fst kd;
           data_value = dict_get (data ob) key;
           data_type = (if starts_with ''primary_ip'' key then TClass NBIPAddress else snd kd)
       in
       if data_value = PNone then sreturn ()
       else
         case data_type of
           TListClass l \<Rightarrow>
             sbind (spure (py_iter rt data_value)) (\<lambda>items.
             sbind (resolve_members rt (member_type l) items) (\<lambda>resolved.
               set_data self key (PObjList l resolved)))
         | TClass c \<Rightarrow>
             sbind (if is_netbox_object data_value then sreturn data_value
                    else
                      let data_to_find =
                        (if is_int data_value then PDict [(''id'', data_value)]
                         else if is_dict data_value then data_value else PNone)
                      in inv_get_by_data rt c data_to_find) (\<lambda>resolved_data.
               if resolved_data \<noteq> PNone then set_data self key resolved_data
               else sbind (get_display_name rt self None False) (\<lambda>_.
                      slog Error (ResolveProblem key)))
         | _ \<Rightarrow> sreturn ())"

fun sforeach :: "('a \<Rightarrow> unit st) \<Rightarrow> 'a list \<Rightarrow> unit st" where
  "sforeach f [] = sreturn ()"
| "sforeach f (x # xs) = sbind (f x) (\<lambda>_. sforeach f xs)"

definition base_resolve_relations :: "runtime \<Rightarrow> ref \<Rightarrow> unit st" where
  "base_resolve_relations rt self = sforeach (resolve_key rt self) (data_model (ref_cls self))"

text \<open>
  Modelled from the spec: \<^verbatim>\<open>do_error_exit\<close> of \<^verbatim>\<open>module/common/misc.py\<close>, which is not
  among the sources, is the "process-level error exit" of the specification: it ends the
  run.
\<close>

definition do_error_exit :: "'a st" where
  "do_error_exit = sraise SystemExit"

text \<open>\<^verbatim>\<open>NBIPAddress.resolve_relations\<close>.\<close>

definition choice_strings :: "cls \<Rightarrow> string \<Rightarrow> pyval list" where
  "choice_strings c key =
     (case map_of (data_model c) key of Some (TChoice ss) \<Rightarrow> map PStr ss | _ \<Rightarrow> [])"

definition ip_resolve_relations :: "runtime \<Rightarrow> ref \<Rightarrow> unit st" where
  "ip_resolve_relations rt self =
     sbind (get_obj self) (\<lambda>ob.
       let o_id = dict_get (data ob) ''assigned_object_id'';
           o_type = dict_get (data ob) ''assigned_object_type''
       in
       sbind (if o_type \<noteq> PNone \<and> \<not> py_in o_type (choice_strings (ref_cls self) ''assigned_object_type'')
              then sbind (get_display_name rt self None False) (\<lambda>_.
                   sbind (slog Error InvalidObjectType) (\<lambda>_.
                   sbind (get_display_name rt self None False) (\<lambda>_. do_error_exit)))
              else sreturn ()) (\<lambda>_.
       sbind (if is_int o_id
              then sbind (spure (relation_of_type o_type)) (\<lambda>c.
                   sbind (inv_get_by_id rt c o_id) (\<lambda>found.
                     set_data self ''assigned_object_id'' found))
              else sreturn ()) (\<lambda>_.
       base_resolve_relations rt self)))"

definition resolve_relations :: "runtime \<Rightarrow> ref \<Rightarrow> unit st" where
  "resolve_relations rt self =
     (if ref_cls self = NBIPAddress then ip_resolve_relations rt self
      else base_resolve_relations rt self)"

subsection \<open>Tags and VLANs\<close>

definition has_list_type :: "cls \<Rightarrow> lcls \<Rightarrow> bool" where
  "has_list_type c l = (TListClass l \<in> set (map snd (data_model c)))"

text \<open>
  \<^verbatim>\<open>grab(self, "data.<key>", fallback=...)\<close> of \<^verbatim>\<open>module/common/misc.py\<close> (not among the
  sources), read from its uses: the value of the attribute, or the fallback when there is
  none.
\<close>

definition grab_data :: "obj \<Rightarrow> string \<Rightarrow> pyval \<Rightarrow> pyval" where
  "grab_data ob key fallback = (let v = dict_get (data ob) key in if v = PNone then fallback else v)"

text \<open>\<^verbatim>\<open>get_tags\<close>: \<^verbatim>\<open>self.data.get("tags", list())\<close> is the empty list only for a missing key.\<close>

definition get_tags :: "runtime \<Rightarrow> ref \<Rightarrow> pyval list st" where
  "get_tags rt self =
     sbind (get_obj self) (\<lambda>ob.
     sbind (case map_of (data ob) ''tags'' of
              None \<Rightarrow> sreturn []
            | Some v \<Rightarrow> spure (py_iter rt v)) (\<lambda>members.
       member_display_names rt members))"

text \<open>The inner function \<^verbatim>\<open>extract_tags\<close>, as the names it appends.\<close>

fun extract_tags :: "runtime \<Rightarrow> pyval \<Rightarrow> pyval list st" where
  "extract_tags rt (PObj r) =
     (if ref_cls r = NBTag
      then sbind (get_display_name rt r None False) (\<lambda>n. sreturn [n])
      else sreturn [])"
| "extract_tags rt (PStr s) = sreturn [PStr s]"
| "extract_tags rt (PDict d) = sreturn (if dict_get d ''name'' \<noteq> PNone then [dict_get d ''name''] else [])"
| "extract_tags rt _ = sreturn []"

fun extract_all :: "runtime \<Rightarrow> pyval list \<Rightarrow> pyval list st" where
  "extract_all rt [] = sreturn []"
| "extract_all rt (tag # tags) =
     sbind (extract_tags rt tag) (\<lambda>ns.
     sbind (extract_all rt tags) (\<lambda>rest. sreturn (ns @ rest)))"

text \<open>
  The loop over the sanitized names: the tags to add (got or created by the inventory) and
  the tags to remove (looked up), each in the order of the names.
\<close>

fun collect_tags ::
  "runtime \<Rightarrow> pyval list \<Rightarrow> bool \<Rightarrow> pyval list \<Rightarrow> (pyval list \<times> pyval list) st"
where
  "collect_tags rt current_tag_strings remove [] = sreturn ([], [])"
| "collect_tags rt current_tag_strings remove (tag_name # names) =
     sbind (if \<not> py_in tag_name current_tag_strings \<and> \<not> remove
            then sbind (inv_add rt (Some NBTag) (PDict [(''name'', tag_name)]) None) (\<lambda>tag.
                   sreturn [tag])
            else sreturn []) (\<lambda>new1.
     sbind (if py_in tag_name current_tag_strings \<and> remove
            then sbind (inv_get_by_data rt NBTag (PDict [(''name'', tag_name)])) (\<lambda>tag.
                   sreturn [tag])
            else sreturn []) (\<lambda>removed1.
     sbind (collect_tags rt current_tag_strings remove names) (\<lambda>rest.
       sreturn (new1 @ fst rest, removed1 @ snd rest))))"

text \<open>\<^verbatim>\<open>new_tags + current_tags\<close> needs a list on the right.\<close>

fun list_members :: "pyval \<Rightarrow> exn + pyval list" where
  "list_members (PList xs) = Inr xs"
| "list_members (PObjList l xs) = Inr xs"
| "list_members _ = Inl TypeError"

definition compile_tags :: "runtime \<Rightarrow> ref \<Rightarrow> pyval \<Rightarrow> bool \<Rightarrow> pyval st" where
  "compile_tags rt self tags remove =
     (if tags = PNone \<or> \<not> has_list_type (ref_cls self) NBTagList then sreturn PNone
      else
        sbind (slog Debug2 CompilingTags) (\<lambda>_.
        sbind (if is_list tags
               then sbind (spure (py_iter rt tags)) (extract_all rt)
               else extract_tags rt tags) (\<lambda>sanitized_tag_strings.
        sbind (get_tags rt self) (\<lambda>current_tag_strings.
        sbind (collect_tags rt current_tag_strings remove sanitized_tag_strings) (\<lambda>nr.
        sbind (get_obj self) (\<lambda>ob.
          let new_tags = fst nr; removed_tags = snd nr;
              current_tags = grab_data ob ''tags'' (PObjList NBTagList [])
          in
          if length new_tags > 0 then
            sbind (spure (list_members current_tags)) (\<lambda>cur.
              sreturn (PObjList NBTagList (new_tags @ cur)))
          else if length removed_tags > 0 then
            sbind (spure (py_iter rt current_tags)) (\<lambda>cur.
              sreturn (PObjList NBTagList (filter (\<lambda>tag. \<not> py_in tag removed_tags) cur)))
          else sreturn current_tags))))))"

definition update_tags :: "runtime \<Rightarrow> ref \<Rightarrow> pyval \<Rightarrow> bool \<Rightarrow> unit st" where
  "update_tags rt self tags remove =
     (if tags = PNone \<or> \<not> has_list_type (ref_cls self) NBTagList then sreturn ()
      else
        sbind (slog Debug2 (TagsAction remove)) (\<lambda>_.
        sbind (get_obj self) (\<lambda>ob.
          let current_tags = grab_data ob ''tags'' (PObjList NBTagList []) in
          sbind (compile_tags rt self tags remove) (\<lambda>new_tags.
          sbind (sbind (value_display_name rt current_tags) (py_str rt)) (\<lambda>cur_str.
          sbind (sbind (value_display_name rt new_tags) (py_str rt)) (\<lambda>new_str.
            if cur_str \<noteq> new_str then
              sbind (modify_obj self (\<lambda>ob. ob\<lparr>data := dict_set ''tags'' new_tags (data ob),
                                              updated_items := updated_items ob @ [''tags'']\<rparr>)) (\<lambda>_.
              sbind (get_display_name rt self None False) (\<lambda>_.
              sbind (value_display_name rt current_tags) (\<lambda>_.
              sbind (value_display_name rt new_tags) (\<lambda>_.
                slog Info TagsChanged))))
            else sreturn ()))))))"

definition add_tags :: "runtime \<Rightarrow> ref \<Rightarrow> pyval \<Rightarrow> unit st" where
  "add_tags rt self tags_to_add = update_tags rt self tags_to_add False"

definition remove_tags :: "runtime \<Rightarrow> ref \<Rightarrow> pyval \<Rightarrow> unit st" where
  "remove_tags rt self tags_to_remove = update_tags rt self tags_to_remove True"

text \<open>The loop of \<^verbatim>\<open>compile_vlans\<close>, with the list built so far.\<close>

fun collect_vlans :: "runtime \<Rightarrow> ref \<Rightarrow> pyval list \<Rightarrow> pyval list \<Rightarrow> pyval list st" where
  "collect_vlans rt self new_vlan_list [] = sreturn new_vlan_list"
| "collect_vlans rt self new_vlan_list (vlan # vlans) =
     (if is_instance vlan NBVLAN then
        collect_vlans rt self
          (if py_in vlan new_vlan_list then new_vlan_list else new_vlan_list @ [vlan]) vlans
      else if is_dict vlan then
        sbind (get_obj self) (\<lambda>ob.
        sbind (inv_add rt (Some NBVLAN) vlan (source ob)) (\<lambda>new_vlan_object.
          collect_vlans rt self
            (if py_in new_vlan_object new_vlan_list then new_vlan_list
             else new_vlan_list @ [new_vlan_object]) vlans))
      else
        sbind (slog Error VlanUnparsable) (\<lambda>_. collect_vlans rt self new_vlan_list vlans))"

definition compile_vlans :: "runtime \<Rightarrow> ref \<Rightarrow> pyval \<Rightarrow> pyval st" where
  "compile_vlans rt self vlans =
     (if vlans = PNone \<or> \<not> has_list_type (ref_cls self) NBVLANList then sreturn PNone
      else if \<not> is_list vlans then sraise ValueError
      else
        sbind (slog Debug2 CompilingVlans) (\<lambda>_.
        sbind (spure (py_iter rt vlans)) (\<lambda>members.
        sbind (collect_vlans rt self [] members) (\<lambda>new_vlan_list.
          sreturn (PObjList NBVLANList new_vlan_list)))))"

subsection \<open>\<^verbatim>\<open>NetBoxObject.update\<close>\<close>

text \<open>
  The first loop validates one item of the raw data after the other. A step that ends the
  iteration with \<^verbatim>\<open>continue\<close> returns \<open>None\<close>, a step that goes on returns the value as
  it stands.
\<close>

definition scontinue :: "event \<Rightarrow> 'a option st" where
  "scontinue ev = sbind (slog Error ev) (\<lambda>_. sreturn None)"

definition sthen :: "'a option st \<Rightarrow> ('a \<Rightarrow> 'b option st) \<Rightarrow> 'b option st" where
  "sthen m f = sbind m (\<lambda>r. case r of None \<Rightarrow> sreturn None | Some x \<Rightarrow> f x)"

text \<open>A string with a maximal length; the slug is formatted after it has been cut.\<close>

definition check_max_len :: "string \<Rightarrow> dtype \<Rightarrow> pyval \<Rightarrow> pyval option st" where
  "check_max_len key defined_value_type v =
     (case defined_value_type of
        MaxLen n \<Rightarrow>
          (case v of
             PStr s \<Rightarrow>
               (let cut = take n s in
                if key = ''slug''
                then sbind (spure (format_slug (PStr cut) n)) (\<lambda>slug. sreturn (Some (PStr slug)))
                else sreturn (Some (PStr (take n cut))))
           | _ \<Rightarrow> scontinue (InvalidStr key))
      | _ \<Rightarrow> sreturn (Some v))"

text \<open>
  A list in the schema: a handle must be of one of the listed classes, any other value
  must equal a listed member. No value equals a class.
\<close>

fun class_in_choice :: "cls \<Rightarrow> dtype \<Rightarrow> bool" where
  "class_in_choice c (TClassChoice cs) = (c \<in> set cs)"
| "class_in_choice c _ = False"

fun value_in_choice :: "pyval \<Rightarrow> dtype \<Rightarrow> bool" where
  "value_in_choice v (TChoice ss) = py_in v (map PStr ss)"
| "value_in_choice v _ = False"

fun is_list_type :: "dtype \<Rightarrow> bool" where
  "is_list_type (TChoice ss) = True"
| "is_list_type (TClassChoice cs) = True"
| "is_list_type TNetChoice = True"
| "is_list_type _ = False"

definition check_choice :: "string \<Rightarrow> dtype \<Rightarrow> pyval \<Rightarrow> pyval option st" where
  "check_choice key defined_value_type v =
     (if is_list_type defined_value_type then
        (case v of
           PObj r \<Rightarrow>
             if \<not> class_in_choice (ref_cls r) defined_value_type then scontinue (InvalidChoice key)
             else sreturn (Some v)
         | _ \<Rightarrow>
             if \<not> value_in_choice v defined_value_type then scontinue (InvalidChoice key)
             else sreturn (Some v))
      else sreturn (Some v))"

text \<open>The loop over \<^verbatim>\<open>[bool, str, int]\<close>.\<close>

definition type_check_failed :: "dtype \<Rightarrow> pyval \<Rightarrow> bool" where
  "type_check_failed defined_value_type v =
     ((defined_value_type = TBool \<and> \<not> is_bool v) \<or>
      (defined_value_type = TStr \<and> \<not> is_str v) \<or>
      (defined_value_type = TInt \<and> \<not> is_int v))"

definition check_type :: "string \<Rightarrow> dtype \<Rightarrow> pyval \<Rightarrow> pyval option st" where
  "check_type key defined_value_type v =
     (if type_check_failed defined_value_type v then scontinue (InvalidType key)
      else sreturn (Some v))"

text \<open>
  A reference to another entity: a value that is no handle goes to the inventory, and the
  entity that comes back takes the source of this update if it has none.
\<close>

definition stamp_source :: "pyval \<Rightarrow> source option \<Rightarrow> unit st" where
  "stamp_source v src =
     (case v of
        PObj r \<Rightarrow>
          sbind (get_obj r) (\<lambda>ob.
            if source ob = None then modify_obj r (\<lambda>ob. ob\<lparr>source := src\<rparr>) else sreturn ())
      | _ \<Rightarrow> sraise AttributeError)"

definition parse_reference :: "runtime \<Rightarrow> source option \<Rightarrow> dtype \<Rightarrow> pyval \<Rightarrow> pyval st" where
  "parse_reference rt src defined_value_type v =
     (case defined_value_type of
        TClass c \<Rightarrow>
          if \<not> is_netbox_object v then
            sbind (inv_add rt (Some c) v None) (\<lambda>found.
            sbind (stamp_source found src) (\<lambda>_. sreturn found))
          else sreturn v
      | _ \<Rightarrow> sreturn v)"

definition parse_item :: "runtime \<Rightarrow> ref \<Rightarrow> source option \<Rightarrow> string \<times> pyval \<Rightarrow> (string \<times> pyval) option st" where
  "parse_item rt self src kv =
     (let key = fst kv; v = snd kv in
      case map_of (data_model (ref_cls self)) key of
        None \<Rightarrow> scontinue (UndefinedKey key)
      | Some dt \<Rightarrow>
          if v = PNone then sbind (slog Info (UnsetKey key)) (\<lambda>_. sreturn None)
          else
            let defined_value_type =
              (if starts_with ''primary_ip'' key then TClass NBIPAddress else dt)
            in
            sthen (check_max_len key defined_value_type v) (\<lambda>v1.
            sthen (check_choice key defined_value_type v1) (\<lambda>v2.
            sthen (check_type key defined_value_type v2) (\<lambda>v3.
            sbind (if defined_value_type = TListClass NBTagList
                   then compile_tags rt self v3 False else sreturn v3) (\<lambda>v4.
            sbind (if defined_value_type = TListClass NBVLANList
                   then compile_vlans rt self v4 else sreturn v4) (\<lambda>v5.
            sbind (parse_reference rt src defined_value_type v5) (\<lambda>v6.
              sreturn (Some (key, v6)))))))))"

text \<open>The loop, with \<^verbatim>\<open>parsed_data\<close> as it grows.\<close>

fun parse_items :: "runtime \<Rightarrow> ref \<Rightarrow> source option \<Rightarrow> pydict \<Rightarrow> pydict \<Rightarrow> pydict st" where
  "parse_items rt self src parsed_data [] = sreturn parsed_data"
| "parse_items rt self src parsed_data (kv # items) =
     sbind (parse_item rt self src kv) (\<lambda>r.
       parse_items rt self src
         (case r of None \<Rightarrow> parsed_data | Some p \<Rightarrow> dict_set (fst p) (snd p) parsed_data) items)"

text \<open>The slug of an entity whose raw data has a primary key and no slug.\<close>

definition slug_max_len :: "cls \<Rightarrow> pyval \<Rightarrow> exn + string" where
  "slug_max_len c text =
     (case map_of (data_model c) ''slug'' of
        Some (MaxLen n) \<Rightarrow> format_slug text n
      | _ \<Rightarrow> (case format_slug text 0 of Inl e \<Rightarrow> Inl e | Inr _ \<Rightarrow> Inl TypeError))"

definition add_slug :: "cls \<Rightarrow> pydict \<Rightarrow> pydict st" where
  "add_slug c parsed_data =
     (if map_of (data_model c) ''slug'' \<noteq> None \<and> dict_get parsed_data ''slug'' = PNone \<and>
         dict_get parsed_data (primary_key c) \<noteq> PNone
      then sbind (spure (slug_max_len c (dict_get parsed_data (primary_key c)))) (\<lambda>slug.
             sreturn (dict_set ''slug'' (PStr slug) parsed_data))
      else sreturn parsed_data)"

text \<open>The two strings of the second loop.\<close>

definition strip_cr :: "string \<Rightarrow> string" where
  "strip_cr s = filter (\<lambda>c. c \<noteq> CHR 0x0D) s"

definition nl_to_space :: "string \<Rightarrow> string" where
  "nl_to_space s = map (\<lambda>c. if c = CHR 0x0A then CHR '' '' else c) s"

fun is_object_or_list :: "pyval \<Rightarrow> bool" where
  "is_object_or_list (PObj r) = True"
| "is_object_or_list (PObjList l xs) = True"
| "is_object_or_list _ = False"

definition current_value_str :: "runtime \<Rightarrow> cls \<Rightarrow> string \<Rightarrow> pyval \<Rightarrow> string st" where
  "current_value_str rt c key current_value =
     (if is_object_or_list current_value
      then sbind (value_display_name rt current_value) (py_str rt)
      else
        case current_value of
          PDict d \<Rightarrow>
            if (case map_of (data_model c) key of Some dt \<Rightarrow> is_list_type dt | None \<Rightarrow> False)
            then py_str rt (dict_get d ''value'')
            else if starts_with ''primary_ip'' key then py_str rt (dict_get d ''address'')
            else sbind (py_str rt current_value) (\<lambda>s. sreturn (strip_cr s))
        | _ \<Rightarrow> sbind (py_str rt current_value) (\<lambda>s. sreturn (strip_cr s)))"

definition new_value_str :: "runtime \<Rightarrow> pyval \<Rightarrow> string st" where
  "new_value_str rt new_value =
     (if is_object_or_list new_value
      then sbind (value_display_name rt new_value) (py_str rt)
      else sbind (py_str rt new_value) (\<lambda>s. sreturn (strip_cr s)))"

text \<open>The float forms of a current and a new value of a numeric attribute are equal.\<close>

definition same_number :: "runtime \<Rightarrow> cls \<Rightarrow> string \<Rightarrow> pyval \<Rightarrow> pyval \<Rightarrow> bool st" where
  "same_number rt c key current_value new_value =
     (if current_value \<noteq> PNone \<and>
         map_of (data_model c) key \<in> {Some TInt, Some TFloat} \<and>
         is_int_or_float new_value
      then sbind (spure (py_float rt current_value)) (\<lambda>a.
           sbind (spure (py_float rt new_value)) (\<lambda>b. sreturn (float_eq a b)))
      else sreturn False)"

text \<open>The body of the second loop.\<close>

definition apply_item :: "runtime \<Rightarrow> ref \<Rightarrow> string \<times> pyval \<Rightarrow> unit st" where
  "apply_item rt self kv =
     (let key = fst kv; new_value = snd kv in
      sbind (get_obj self) (\<lambda>ob.
        let current_value = dict_get (data ob) key in
        if py_eq current_value new_value then sreturn ()
        else
          sbind (current_value_str rt (ref_cls self) key current_value) (\<lambda>cur_str.
          sbind (new_value_str rt new_value) (\<lambda>new_str.
          sbind (same_number rt (ref_cls self) key current_value new_value) (\<lambda>same.
            if same then sreturn ()
            else if cur_str = new_str then sreturn ()
            else
              sbind (modify_obj self (\<lambda>ob. ob\<lparr>data := dict_set key new_value (data ob),
                                              updated_items := updated_items ob @ [key]\<rparr>)) (\<lambda>_.
              sbind (if \<not> is_new ob
                     then slog Info (Changed key cur_str (nl_to_space new_str))
                     else sreturn ()) (\<lambda>_.
                resolve_relations rt self)))))))"

text \<open>
  \<^verbatim>\<open>NetBoxObject.update\<close>, in two parts: what it does with data that is not read from
  NetBox (from the assignment of the source to the end of the second loop), and the method.
\<close>

definition update_from_source :: "runtime \<Rightarrow> ref \<Rightarrow> pydict \<Rightarrow> source option \<Rightarrow> unit st" where
  "update_from_source rt self d src =
     sbind (if src \<noteq> None then modify_obj self (\<lambda>ob. ob\<lparr>source := src\<rparr>)
            else sreturn ()) (\<lambda>_.
     sbind (get_display_name rt self (Some d) False) (\<lambda>n1.
     sbind (if n1 = PNone then get_display_name rt self None False else sreturn n1) (\<lambda>display_name.
     sbind (slog Debug2 (Parsing display_name)) (\<lambda>_.
     sbind (parse_items rt self src [] d) (\<lambda>parsed0.
     sbind (add_slug (ref_cls self) parsed0) (\<lambda>parsed_data.
       sforeach (apply_item rt self) parsed_data))))))"

definition base_update :: "runtime \<Rightarrow> ref \<Rightarrow> pyval \<Rightarrow> bool \<Rightarrow> source option \<Rightarrow> unit st" where
  "base_update rt self raw read_from_netbox src =
     (case raw of
        PNone \<Rightarrow> sreturn ()
      | PDict d \<Rightarrow>
          sbind (if dict_get d ''id'' \<noteq> PNone
                 then modify_obj self (\<lambda>ob. ob\<lparr>nb_id := dict_get d ''id''\<rparr>)
                 else sreturn ()) (\<lambda>_.
          if read_from_netbox then
            modify_obj self (\<lambda>ob. ob\<lparr>is_new := False, data := d,
                                     updated_items := [], unset_items := []\<rparr>)
          else update_from_source rt self d src)
      | _ \<Rightarrow> sraise AttributeError)"

subsection \<open>The overrides of \<^verbatim>\<open>update\<close>, and the constructor\<close>

text \<open>
  The overrides write into the mapping they are given before they pass it on, and the caller
  sees that: they return the raw data as they leave it.

  \<^verbatim>\<open>data[key] = v\<close> on the raw data: the argument must be a mapping.
\<close>

fun raw_set :: "string \<Rightarrow> pyval \<Rightarrow> pyval \<Rightarrow> exn + pyval" where
  "raw_set k v (PDict d) = Inr (PDict (dict_set k v d))"
| "raw_set k v _ = Inl TypeError"

text \<open>\<^verbatim>\<open>data.get(key)\<close> on the raw data.\<close>

fun raw_get :: "pyval \<Rightarrow> string \<Rightarrow> exn + pyval" where
  "raw_get (PDict d) k = Inr (dict_get d k)"
| "raw_get _ k = Inl AttributeError"

text \<open>\<^verbatim>\<open>NBVLAN.update\<close>: the name of a VLAN that has one is kept.\<close>

definition vlan_update :: "runtime \<Rightarrow> ref \<Rightarrow> pyval \<Rightarrow> bool \<Rightarrow> source option \<Rightarrow> pyval st" where
  "vlan_update rt self raw read_from_netbox src =
     sbind (get_obj self) (\<lambda>ob.
     sbind (if \<not> read_from_netbox \<and> grab_data ob ''name'' PNone \<noteq> PNone
            then spure (raw_set ''name'' (grab_data ob ''name'' PNone) raw)
            else sreturn raw) (\<lambda>raw1.
     sbind (base_update rt self raw1 read_from_netbox src) (\<lambda>_. sreturn raw1)))"

text \<open>
  \<^verbatim>\<open>NBPrefix.update\<close>: the prefix is parsed into an IP network, an update with a prefix
  that does not parse is given up, and an update that is not read from NetBox is refused
  once it has been made.
\<close>

fun is_network :: "pyval \<Rightarrow> bool" where
  "is_network (PNet s) = True"
| "is_network _ = False"

definition prefix_update :: "runtime \<Rightarrow> ref \<Rightarrow> pyval \<Rightarrow> bool \<Rightarrow> source option \<Rightarrow> pyval st" where
  "prefix_update rt self raw read_from_netbox src =
     sbind (spure (raw_get raw (primary_key (ref_cls self)))) (\<lambda>data_prefix.
       if data_prefix \<noteq> PNone \<and> \<not> is_network data_prefix \<and> rt_ip_network rt data_prefix = Inl ValueError
       then sbind (slog Error PrefixUnparsable) (\<lambda>_. sreturn raw)
       else
         sbind (if data_prefix \<noteq> PNone \<and> \<not> is_network data_prefix
                then sbind (spure (rt_ip_network rt data_prefix)) (\<lambda>net.
                       spure (raw_set (primary_key (ref_cls self)) net raw))
                else sreturn raw) (\<lambda>raw1.
         sbind (base_update rt self raw1 read_from_netbox src) (\<lambda>_.
           if \<not> read_from_netbox then sraise ValueError else sreturn raw1)))"

text \<open>
  \<^verbatim>\<open>NBIPAddress.update\<close>: the assigned object is got or created first, and its type is
  marked as changed whenever the object is among the changed attributes.
\<close>

definition ip_update :: "runtime \<Rightarrow> ref \<Rightarrow> pyval \<Rightarrow> bool \<Rightarrow> source option \<Rightarrow> pyval st" where
  "ip_update rt self raw read_from_netbox src =
     sbind (spure (raw_get raw ''assigned_object_type'')) (\<lambda>object_type.
     sbind (spure (raw_get raw ''assigned_object_id'')) (\<lambda>assigned_object.
     sbind (if \<not> read_from_netbox \<and> assigned_object \<noteq> PNone then
              (case assigned_object of
                 PObj r \<Rightarrow> spure (raw_set ''assigned_object_type'' (relation_of_class (ref_cls r)) raw)
               | _ \<Rightarrow>
                   sbind (spure (relation_of_type object_type)) (\<lambda>c.
                   sbind (inv_add rt c assigned_object None) (\<lambda>found.
                     spure (raw_set ''assigned_object_id'' found raw))))
            else sreturn raw) (\<lambda>raw1.
     sbind (base_update rt self raw1 read_from_netbox src) (\<lambda>_.
     sbind (get_obj self) (\<lambda>ob.
     sbind (if ''assigned_object_id'' \<in> set (updated_items ob)
            then modify_obj self (\<lambda>ob. ob\<lparr>updated_items :=
                   updated_items ob @ [''assigned_object_type'']\<rparr>)
            else sreturn ()) (\<lambda>_.
       sreturn raw1))))))"

text \<open>\<^verbatim>\<open>self.update(...)\<close>, by the class of the entity.\<close>

definition update :: "runtime \<Rightarrow> ref \<Rightarrow> pyval \<Rightarrow> bool \<Rightarrow> source option \<Rightarrow> pyval st" where
  "update rt self raw read_from_netbox src =
     (if ref_cls self = NBVLAN then vlan_update rt self raw read_from_netbox src
      else if ref_cls self = NBPrefix then prefix_update rt self raw read_from_netbox src
      else if ref_cls self = NBIPAddress then ip_update rt self raw read_from_netbox src
      else sbind (base_update rt self raw read_from_netbox src) (\<lambda>_. sreturn raw))"

text \<open>
  \<^verbatim>\<open>NetBoxObject.__init__\<close> for a new entity at the address \<open>self\<close>: the default
  attributes, an empty list for every list attribute of the schema, then the update.
\<close>

definition initial_data :: "cls \<Rightarrow> pydict" where
  "initial_data c =
     concat (map (\<lambda>kd. case snd kd of TListClass l \<Rightarrow> [(fst kd, PObjList l [])] | _ \<Rightarrow> [])
               (data_model c))"

definition default_object :: "cls \<Rightarrow> obj" where
  "default_object c =
     \<lparr>data = initial_data c, is_new = True, nb_id = PInt 0, updated_items = [],
      unset_items = [], source = None\<rparr>"

definition init_object :: "runtime \<Rightarrow> ref \<Rightarrow> pyval \<Rightarrow> bool \<Rightarrow> source option \<Rightarrow> pyval st" where
  "init_object rt self raw read_from_netbox src h =
     update rt self raw read_from_netbox src (AList.update self (default_object (ref_cls self)) h)"

subsection \<open>The remaining methods of an entity\<close>

text \<open>\<^verbatim>\<open>get_nb_reference\<close>: \<^verbatim>\<open>None\<close> for the id \<open>0\<close> of a new entity, else the id.\<close>

definition get_nb_reference :: "obj \<Rightarrow> pyval" where
  "get_nb_reference ob = (if py_eq (nb_id ob) (PInt 0) then PNone else nb_id ob)"

subsection \<open>A runtime to run the model on\<close>

text \<open>
  The theorems below hold for every runtime. To run the model on concrete entities, this
  runtime answers what it can answer as Python does and refuses the rest with
  \<open>OtherError\<close>: it renders a list of plain strings (letters, digits, blanks and a few
  signs, none of which \<^verbatim>\<open>repr\<close> escapes), it rejects as an IP network a string without a
  dot and a colon, and its recursion limit is Python's default.
\<close>

definition plain_chars :: string where
  "plain_chars = ''abcdefghijklmnopqrstuvwxyzABCDEFGHIJKLMNOPQRSTUVWXYZ0123456789 ()_-./:''"

definition is_plain :: "pyval \<Rightarrow> bool" where
  "is_plain v = (case v of PStr s \<Rightarrow> list_all (\<lambda>c. c \<in> set plain_chars) s | _ \<Rightarrow> False)"

fun join_reprs :: "string list \<Rightarrow> string" where
  "join_reprs [] = []"
| "join_reprs [s] = [CHR 0x27] @ s @ [CHR 0x27]"
| "join_reprs (s # t # ss) = [CHR 0x27] @ s @ [CHR 0x27] @ '', '' @ join_reprs (t # ss)"

definition plain_str :: "heap \<Rightarrow> pyval \<Rightarrow> exn + string" where
  "plain_str h v =
     (case v of
        PList xs \<Rightarrow>
          if list_all is_plain xs then Inr (''['' @ join_reprs (map the_str xs) @ '']'')
          else Inl (OtherError ''str'')
      | _ \<Rightarrow> Inl (OtherError ''str''))"

definition plain_ip_network :: "pyval \<Rightarrow> exn + pyval" where
  "plain_ip_network v =
     (case v of
        PStr s \<Rightarrow> if CHR ''.'' \<notin> set s \<and> CHR '':'' \<notin> set s then Inl ValueError
                  else Inl (OtherError ''ip_network'')
      | _ \<Rightarrow> Inl (OtherError ''ip_network''))"

text \<open>
  Modelled from the spec: the inventory, "process-wide registry of all known entities", with
  "lookup-by-natural-key, lookup-by-remote-id, and get-or-create". The registry is the
  store. A lookup by data takes the remote id when the data has one ("an integer is wrapped
  as \<open>{id: value}\<close>") and the value of the primary key otherwise, and creates nothing;
  get-or-create returns the entity the lookup finds, or else constructs a new one from the
  data, "full validation path runs". The construction calls \<^verbatim>\<open>update\<close>, which calls the
  inventory again: \<open>n\<close> bounds the depth of that nesting.
\<close>

definition find_entity :: "cls \<Rightarrow> (obj \<Rightarrow> bool) \<Rightarrow> heap \<Rightarrow> pyval" where
  "find_entity c p h =
     (case filter (\<lambda>ro. ref_cls (fst ro) = c \<and> p (snd ro)) h of
        [] \<Rightarrow> PNone
      | ro # _ \<Rightarrow> PObj (fst ro))"

definition spec_get_by_id :: "cls option \<Rightarrow> pyval \<Rightarrow> heap \<Rightarrow> exn + pyval" where
  "spec_get_by_id c i h =
     (case c of None \<Rightarrow> Inr PNone | Some c' \<Rightarrow> Inr (find_entity c' (\<lambda>ob. py_eq (nb_id ob) i) h))"

definition spec_get_by_data :: "cls \<Rightarrow> pyval \<Rightarrow> heap \<Rightarrow> exn + pyval" where
  "spec_get_by_data c d h =
     (case d of
        PDict dd \<Rightarrow>
          if dict_get dd ''id'' \<noteq> PNone then spec_get_by_id (Some c) (dict_get dd ''id'') h
          else if dict_get dd (primary_key c) \<noteq> PNone
          then Inr (find_entity c
                 (\<lambda>ob. py_eq (dict_get (data ob) (primary_key c)) (dict_get dd (primary_key c))) h)
          else Inr PNone
      | _ \<Rightarrow> Inr PNone)"

fun ref_id :: "ref \<Rightarrow> nat" where
  "ref_id (Ref c n) = n"

definition fresh_ref :: "cls \<Rightarrow> heap \<Rightarrow> ref" where
  "fresh_ref c h = Ref c (Suc (fold max (map (\<lambda>ro. ref_id (fst ro)) h) 0))"

definition spec_add_update_object ::
  "runtime \<Rightarrow> cls option \<Rightarrow> pyval \<Rightarrow> source option \<Rightarrow> heap \<Rightarrow> (exn + pyval) \<times> heap"
where
  "spec_add_update_object rt c d src h =
     (case c of
        None \<Rightarrow> (Inl (OtherError ''type''), h)
      | Some c' \<Rightarrow>
          (case spec_get_by_data c' d h of
             Inl e \<Rightarrow> (Inl e, h)
           | Inr found \<Rightarrow>
               if found \<noteq> PNone then (Inr found, h)
               else
                 (case init_object rt (fresh_ref c' h) d False src h of
                    (Inl e, h', l) \<Rightarrow> (Inl e, h')
                  | (Inr _, h', l) \<Rightarrow> (Inr (PObj (fresh_ref c' h)), h'))))"

definition plain_rt :: runtime where
  "plain_rt =
     \<lparr>rt_str = plain_str,
      rt_float_of_int = (\<lambda>i. Inl (OtherError ''float'')),
      rt_float_of_str = (\<lambda>s. Inl (OtherError ''float'')),
      rt_sorted = (\<lambda>xs. Inl (OtherError ''sorted'')),
      rt_iter_net = (\<lambda>s. Inl (OtherError ''iter'')),
      rt_ip_network = plain_ip_network,
      rt_limit = 1000,
      add_update_object = (\<lambda>c d src h. (Inl RecursionError, h)),
      get_by_data = spec_get_by_data,
      get_by_id = spec_get_by_id\<rparr>"

primrec run_rt :: "nat \<Rightarrow> runtime" where
  "run_rt 0 = plain_rt"
| "run_rt (Suc n) = plain_rt\<lparr>add_update_object := spec_add_update_object (run_rt n)\<rparr>"

subsection \<open>Entities of the examples\<close>

text \<open>The string a name is rendered as in a display name: itself, or \<^verbatim>\<open>None\<close>.\<close>

definition name_text :: "pyval \<Rightarrow> string" where
  "name_text v = (case v of PStr s \<Rightarrow> s | _ \<Rightarrow> ''None'')"

definition site_dc1 :: obj where
  "site_dc1 = (default_object NBSite)\<lparr>data := [(''name'', PStr ''dc1'')]\<rparr>"

definition vlan_100 :: "pydict \<Rightarrow> obj" where
  "vlan_100 attrs = (default_object NBVLAN)\<lparr>data := (''vid'', PInt 100) # attrs\<rparr>"

definition tenant_1 :: heap where
  "tenant_1 = [(Ref NBTenant 1, default_object NBTenant)]"

definition prefix_1 :: heap where
  "prefix_1 = [(Ref NBPrefix 1, default_object NBPrefix)]"

definition vm_1 :: obj where
  "vm_1 = (default_object NBVM)\<lparr>data := [(''name'', PStr ''vm1''), (''vcpus'', PInt 4)],
                                 is_new := False\<rparr>"

subsection \<open>Notions of the properties\<close>

text \<open>
  Two runs, of a computation on data with the key \<open>key\<close> and of the same computation on
  the data without it, where the key is only skipped: they end alike (with the same
  exception, or both normally with results that \<open>R\<close> relates), they leave the same store,
  and the first log is the second with one more record, the error of the undefined key. When
  an exception ends the runs before the key is looked at, the logs are the same.
\<close>

definition skips :: "('a \<Rightarrow> 'a \<Rightarrow> bool) \<Rightarrow> string \<Rightarrow> (exn + 'a) \<times> heap \<times> log \<Rightarrow> (exn + 'a) \<times> heap \<times> log \<Rightarrow> bool" where
  "skips R key res res0 =
     (case res of (r, h, l) \<Rightarrow> case res0 of (r0, h0, l0) \<Rightarrow>
        rel_sum (=) R r r0 \<and> h = h0 \<and>
        ((isl r \<and> l = l0) \<or>
         (\<exists>l1 l2. l = l1 @ (Error, UndefinedKey key) # l2 \<and> l0 = l1 @ l2)))"

text \<open>The raw data \<open>d\<close> is \<open>d0\<close> with one more item, of the key \<open>key\<close>.\<close>

definition without :: "string \<Rightarrow> pydict \<Rightarrow> pydict \<Rightarrow> bool" where
  "without key d d0 = (\<exists>xs v ys. d = xs @ (key, v) # ys \<and> d0 = xs @ ys)"

text \<open>
  \<^verbatim>\<open>NBPrefix.update\<close> goes on to \<^verbatim>\<open>NetBoxObject.update\<close>, or raises: the prefix of the raw
  data is missing, is a network already, or \<^verbatim>\<open>ip_network\<close> does not refuse it with a
  \<^verbatim>\<open>ValueError\<close>.
\<close>

definition prefix_parses :: "runtime \<Rightarrow> pydict \<Rightarrow> bool" where
  "prefix_parses rt d =
     (let p = dict_get d ''prefix'' in p = PNone \<or> is_network p \<or> \<not> isl (rt_ip_network rt p))"

text \<open>
  A log record is quiet about the keys outside \<open>K\<close>: it is no change record of such a key.
  A computation reads when it leaves the store as it is and its log is quiet; it keeps \<open>I\<close>
  when it leaves a store with \<open>I\<close> a store with \<open>I\<close> and its log is quiet; it yields \<open>Q\<close> when
  every value it returns has \<open>Q\<close>.
\<close>

definition quiet :: "string set \<Rightarrow> level \<times> event \<Rightarrow> bool" where
  "quiet K le = (case snd le of Changed k a b \<Rightarrow> k \<in> K | _ \<Rightarrow> True)"

definition reads :: "string set \<Rightarrow> 'a st \<Rightarrow> bool" where
  "reads K m = (\<forall>h. case m h of (r, h', l) \<Rightarrow> h' = h \<and> list_all (quiet K) l)"

definition keeps :: "(heap \<Rightarrow> bool) \<Rightarrow> string set \<Rightarrow> 'a st \<Rightarrow> bool" where
  "keeps I K m = (\<forall>h. I h \<longrightarrow> (case m h of (r, h', l) \<Rightarrow> I h' \<and> list_all (quiet K) l))"

definition yields :: "'a st \<Rightarrow> ('a \<Rightarrow> bool) \<Rightarrow> bool" where
  "yields m Q = (\<forall>h. case m h of (r, h', l) \<Rightarrow> (case r of Inl e \<Rightarrow> True | Inr x \<Rightarrow> Q x))"

text \<open>The entity at \<open>self\<close> is in the store and has \<open>P\<close>.\<close>

definition on_self :: "ref \<Rightarrow> (obj \<Rightarrow> bool) \<Rightarrow> heap \<Rightarrow> bool" where
  "on_self self P h = (case map_of h self of None \<Rightarrow> False | Some ob \<Rightarrow> P ob)"

text \<open>
  What is assumed of the inventory, which is not part of the module: a call of
  \<^verbatim>\<open>add_update_object\<close> keeps the entity at \<open>self\<close> in the store, and keeps what \<open>f\<close> reads
  of it.
\<close>

definition inventory_keeps :: "runtime \<Rightarrow> ref \<Rightarrow> (obj \<Rightarrow> 'a) \<Rightarrow> bool" where
  "inventory_keeps rt self f =
     (\<forall>c x s h ob. map_of h self = Some ob \<longrightarrow>
        (\<exists>ob'. map_of (snd (add_update_object rt c x s h)) self = Some ob' \<and> f ob' = f ob))"

text \<open>The attributes that relation resolution may write.\<close>

definition resolves :: "cls \<Rightarrow> string \<Rightarrow> bool" where
  "resolves c k =
     ((c = NBIPAddress \<and> k = ''assigned_object_id'') \<or>
      (\<exists>dt. (k, dt) \<in> set (data_model c) \<and>
         (starts_with ''primary_ip'' k \<or>
          (case dt of TClass c' \<Rightarrow> True | TListClass l \<Rightarrow> True | _ \<Rightarrow> False))))"

text \<open>
  The schema declares the attribute \<^verbatim>\<open>int\<close> or \<^verbatim>\<open>float\<close>; the raw data give the key no
  value but \<open>v\<close>.
\<close>

definition numeric :: "cls \<Rightarrow> string \<Rightarrow> bool" where
  "numeric c key = (map_of (data_model c) key \<in> {Some TInt, Some TFloat})"

definition gives :: "string \<Rightarrow> pyval \<Rightarrow> pydict \<Rightarrow> bool" where
  "gives key v d = (\<forall>v'. (key, v') \<in> set d \<longrightarrow> v' = v)"

section \<open>Properties\<close>

subsection \<open>The slug formatter\<close>

lemma permitted_fixed:
  "\<forall>c \<in> set permitted_chars. lower_char (replace_sep c) = c"
  by (simp add: permitted_chars_def lower_char_def replace_sep_def upper_table_def)

lemma slug_chars_fixed:
  "set y \<subseteq> set permitted_chars \<Longrightarrow>
   filter (\<lambda>c. c \<in> set permitted_chars) (map lower_char (map replace_sep y)) = y"
proof (induction y)
  case Nil
  then show ?case by simp
next
  case (Cons c y)
  then have "c \<in> set permitted_chars" and "set y \<subseteq> set permitted_chars" by simp_all
  with Cons.IH permitted_fixed show ?case by simp
qed

text \<open>
  Claim C2, as amended. For every non-empty string \<open>text\<close> and maximal length \<open>n\<close>,
  \<^verbatim>\<open>format_slug\<close> returns a string \<open>y\<close> of characters of \<open>[a-z0-9_-]\<close> only and of
  length at most \<open>n\<close>. Formatting \<open>y\<close> again returns \<open>y\<close> when \<open>y\<close> is not empty; when
  \<open>y\<close> is empty (no character of \<open>text\<close> is kept, or \<open>n\<close> is \<open>0\<close>), the second call is
  refused with the argument error, as every call on the empty string is.
\<close>

theorem format_slug_law:
  "text \<noteq> [] \<Longrightarrow>
   (case format_slug (PStr text) n of
      Inl e \<Rightarrow> False
    | Inr y \<Rightarrow> set y \<subseteq> set permitted_chars \<and> length y \<le> n \<and>
        format_slug (PStr y) n = (if y = [] then Inl AttributeError else Inr y))"
proof -
  assume ne: "text \<noteq> []"
  define z where "z = filter (\<lambda>c. c \<in> set permitted_chars) (map lower_char (map replace_sep text))"
  define y where "y = take n z"
  have r: "format_slug (PStr text) n = Inr y"
    using ne by (simp add: format_slug_str_def y_def z_def)
  have "set z \<subseteq> set permitted_chars"
    unfolding z_def by (rule subsetI) simp
  moreover have "set y \<subseteq> set z"
    unfolding y_def by (rule set_take_subset)
  ultimately have sub: "set y \<subseteq> set permitted_chars" by (rule order_trans [rotated])
  have len: "length y \<le> n" by (simp add: y_def)
  have "take n (filter (\<lambda>c. c \<in> set permitted_chars) (map lower_char (map replace_sep y))) = y"
    using slug_chars_fixed [OF sub] by (simp add: y_def)
  then have idem: "format_slug (PStr y) n = (if y = [] then Inl AttributeError else Inr y)"
    by (simp add: format_slug_str_def)
  show ?thesis unfolding r using sub len idem by simp
qed

theorem format_slug_law_witness:
  "format_slug (PStr ''Web Server, v2.0'') 12 = Inr ''web-server--'' \<and>
   format_slug (PStr ''web-server--'') 12 = Inr ''web-server--''"
  using format_slug_law [of "''Web Server, v2.0''" 12]
  by (simp add: format_slug_str_def permitted_chars_def lower_char_def replace_sep_def upper_table_def)

text \<open>
  The claim as stated fails: the slug of \<^verbatim>\<open>"!"\<close> is the empty string, and the empty string is
  not formatted but refused.
\<close>

theorem format_slug_not_idempotent:
  "format_slug (PStr ''!'') 50 = Inr [] \<and>
   format_slug (PStr []) 50 = Inl AttributeError \<and>
   format_slug (PStr []) 50 \<noteq> format_slug (PStr ''!'') 50"
  by (simp add: format_slug_str_def permitted_chars_def lower_char_def replace_sep_def upper_table_def)

subsection \<open>Rules for computations on the store\<close>

lemma sbind_sreturn [simp]: "sbind (sreturn x) f = f x"
  by (rule ext) (simp add: sbind_def sreturn_def split: prod.splits)

lemma sbind_sraise [simp]: "sbind (sraise e) f = sraise e"
  by (rule ext) (simp add: sbind_def sraise_def)

lemma sbind_spure_Inr [simp]: "sbind (spure (Inr x)) f = f x"
  by (rule ext) (simp add: sbind_def spure_def split: prod.splits)

lemma sbind_spure_Inl [simp]: "sbind (spure (Inl e)) f = sraise e"
  by (rule ext) (simp add: sbind_def spure_def sraise_def)

lemma sbind_assoc [simp]: "sbind (sbind m f) g = sbind m (\<lambda>x. sbind (f x) g)"
  by (rule ext) (simp add: sbind_def split: prod.splits sum.splits)

lemma sbind_slog: "sbind (slog lv ev) f h = (case f () h of (r, h', l) \<Rightarrow> (r, h', (lv, ev) # l))"
  by (simp add: sbind_def slog_def)

lemma sbind_get_obj: "map_of h r = Some ob \<Longrightarrow> sbind (get_obj r) f h = f ob h"
  by (simp add: sbind_def get_obj_def split: prod.splits)

lemma sbind_known:
  "m h = (Inr x, h1, l) \<Longrightarrow> sbind m f h = (case f x h1 of (r, h', l') \<Rightarrow> (r, h', l @ l'))"
  by (simp add: sbind_def)

lemma py_eq_PStr [simp]: "py_eq v (PStr s) = (v = PStr s)"
  by (cases v) (auto split: pyval.splits)

lemma py_str_simps [simp]:
  "py_str rt PNone = sreturn ''None''"
  "py_str rt (PStr s) = sreturn s"
  "py_str rt (PInt i) = sreturn (str_of_int i)"
  by (rule ext, simp add: py_str_def sreturn_def)+

lemma str_of_int_100: "str_of_int 100 = ''100''"
  by (simp add: str_of_int_def str_of_nat.simps digit_char_def)

lemma display_name_depth_Suc:
  "display_name_depth rt (Suc n) self d inc =
     (if ref_cls self = NBVLAN then vlan_get_display_name rt (display_name_depth rt n) self d inc
      else base_get_display_name rt (display_name_depth rt n) self d inc)"
  by simp

declare display_name_depth.simps [simp del]

subsection \<open>The slug of an update\<close>

lemma slug_is_cut_then_formatted:
  "check_max_len ''slug'' (MaxLen n) (PStr v) =
     sbind (spure (format_slug (PStr (take n v)) n)) (\<lambda>slug. sreturn (Some (PStr slug)))"
  by (simp add: check_max_len_def)

text \<open>
  Claim C3 says that the slug of an update is the slug formatter applied to the given
  string. The code cuts the string to the maximal length first and formats what is left,
  so a character that the formatter drops costs the slug a character it had room for. On a
  new tenant (slug of at most 50 characters) the raw slug \<^verbatim>\<open>"!" + 50 * "a"\<close> is stored as
  49 letters, where the formatter applied to the whole string gives 50.
\<close>

theorem slug_of_update_is_cut_first:
  "(case update (run_rt 0) (Ref NBTenant 1)
           (PDict [(''slug'', PStr (CHR ''!'' # replicate 50 CHR ''a''))]) False None
           [(Ref NBTenant 1, default_object NBTenant)] of
      (r, h, l) \<Rightarrow> map_option (\<lambda>ob. dict_get (data ob) ''slug'') (map_of h (Ref NBTenant 1)))
   = Some (PStr (replicate 49 CHR ''a'')) \<and>
   format_slug (PStr (CHR ''!'' # replicate 50 CHR ''a'')) 50 = Inr (replicate 50 CHR ''a'')"
  by code_simp

subsection \<open>The display name of a VLAN\<close>

lemma base_vlan:
  assumes "ref_cls self = NBVLAN" "map_of h self = Some ob"
    and "dict_get (data ob) ''vid'' = PInt 100"
    and "dict_get (data ob) ''name'' = PNone \<or> is_str (dict_get (data ob) ''name'')"
  shows "\<exists>l. base_get_display_name rt rec self None False h
      = (Inr (PStr (''100 ('' @ name_text (dict_get (data ob) ''name'') @ '')'')), h, l)"
proof (cases "dict_get (data ob) ''name''")
  case PNone
  then show ?thesis using assms(1-3)
    by (simp add: base_get_display_name_def this_data_set_def sbind_get_obj Let_def
        format_name_def str_of_int_100 name_text_def sreturn_def sbind_slog)
next
  case (PStr s)
  then show ?thesis using assms(1-3)
    by (simp add: base_get_display_name_def this_data_set_def sbind_get_obj Let_def
        format_name_def str_of_int_100 name_text_def sreturn_def sbind_slog)
qed (use assms(4) in simp_all)

lemma site_name:
  assumes "ref_cls s = NBSite" "map_of h s = Some sob"
  shows "display_name_depth rt (Suc n) s None False h = (Inr (dict_get (data sob) ''name''), h, [])"
  using assms
  by (simp add: display_name_depth_Suc base_get_display_name_def this_data_set_def sbind_get_obj
      sreturn_def)

text \<open>
  Claim C6, as amended. A VLAN with \<open>vid = 100\<close> and a site whose name is \<open>dc1\<close> has the
  display name \<open>100 (dc1)\<close>. With no site the name of the VLAN takes the place of the site:
  the display name is \<open>100 (<name>)\<close>, and \<open>100 (None)\<close> for a VLAN without a name; it is
  never the plain \<open>100\<close>. (The name is a string or missing; two frames of the interpreter's
  stack are left.)
\<close>

theorem vlan_display_name:
  assumes "ref_cls self = NBVLAN" "map_of h self = Some ob"
    and "dict_get (data ob) ''vid'' = PInt 100"
    and "dict_get (data ob) ''name'' = PNone \<or> is_str (dict_get (data ob) ''name'')"
    and "2 \<le> rt_limit rt"
  shows "(dict_get (data ob) ''site'' = PObj s \<and> ref_cls s = NBSite \<and> map_of h s = Some sob \<and>
          dict_get (data sob) ''name'' = PStr ''dc1''
          \<longrightarrow> fst (get_display_name rt self None False h) = Inr (PStr ''100 (dc1)'')) \<and>
         (dict_get (data ob) ''site'' = PNone
          \<longrightarrow> fst (get_display_name rt self None False h) =
              Inr (PStr (''100 ('' @ name_text (dict_get (data ob) ''name'') @ '')'')))"
proof -
  obtain n where n: "rt_limit rt = Suc (Suc n)"
    using assms(5) by (cases "rt_limit rt"; cases "rt_limit rt - 1") auto
  obtain l where base: "base_get_display_name rt (display_name_depth rt (Suc n)) self None False h
      = (Inr (PStr (''100 ('' @ name_text (dict_get (data ob) ''name'') @ '')'')), h, l)"
    using base_vlan [OF assms(1-4)] by blast
  note kb = sbind_known [where m = "base_get_display_name rt (display_name_depth rt (Suc n)) self None False"
      and h = h, OF base]
  have unfold: "get_display_name rt self None False h =
      vlan_get_display_name rt (display_name_depth rt (Suc n)) self None False h"
    using assms(1) by (simp add: get_display_name_def n display_name_depth_Suc)
  have site: "fst (get_display_name rt self None False h) = Inr (PStr ''100 (dc1)'')"
    if a: "dict_get (data ob) ''site'' = PObj s \<and> ref_cls s = NBSite \<and> map_of h s = Some sob \<and>
          dict_get (data sob) ''name'' = PStr ''dc1''"
  proof -
    have sn: "display_name_depth rt (Suc n) s None False h = (Inr (PStr ''dc1''), h, [])"
      using site_name [of s h sob rt n] a by simp
    note ks = sbind_known [where m = "display_name_depth rt (Suc n) s None False" and h = h, OF sn]
    show ?thesis
      unfolding unfold vlan_get_display_name_def
      using assms(1-3) a
      by (simp add: kb this_data_set_def sbind_get_obj Let_def
          ks format_name_def str_of_int_100 sreturn_def)
  qed
  have nosite: "fst (get_display_name rt self None False h) =
              Inr (PStr (''100 ('' @ name_text (dict_get (data ob) ''name'') @ '')''))"
    if a: "dict_get (data ob) ''site'' = PNone"
    unfolding unfold vlan_get_display_name_def
    using assms(1-3) a
    by (simp add: kb this_data_set_def sbind_get_obj Let_def sreturn_def)
  show ?thesis using site nosite by blast
qed

theorem vlan_display_name_witness:
  "fst (get_display_name (run_rt 0) (Ref NBVLAN 1) None False
          [(Ref NBVLAN 1, vlan_100 [(''site'', PObj (Ref NBSite 2))]), (Ref NBSite 2, site_dc1)])
     = Inr (PStr ''100 (dc1)'') \<and>
   fst (get_display_name (run_rt 0) (Ref NBVLAN 1) None False
          [(Ref NBVLAN 1, vlan_100 [(''name'', PStr ''prod'')])])
     = Inr (PStr ''100 (prod)'')"
  using vlan_display_name [of "Ref NBVLAN 1"
      "[(Ref NBVLAN 1, vlan_100 [(''site'', PObj (Ref NBSite 2))]), (Ref NBSite 2, site_dc1)]"
      "vlan_100 [(''site'', PObj (Ref NBSite 2))]" "run_rt 0" "Ref NBSite 2" site_dc1]
    vlan_display_name [of "Ref NBVLAN 1" "[(Ref NBVLAN 1, vlan_100 [(''name'', PStr ''prod'')])]"
      "vlan_100 [(''name'', PStr ''prod'')]" "run_rt 0"]
  by (simp add: dict_get_def plain_rt_def vlan_100_def site_dc1_def name_text_def)

text \<open>
  The claim as stated fails: a VLAN with \<open>vid = 100\<close> and no site is not called \<open>100\<close>,
  with a name or without one.
\<close>

theorem vlan_without_site_is_not_plain:
  "get_display_name (run_rt 0) (Ref NBVLAN 1) None False [(Ref NBVLAN 1, vlan_100 [])]
     = (Inr (PStr ''100 (None)''), [(Ref NBVLAN 1, vlan_100 [])],
        [(Error, NoSecondKey ''name''), (Error, WrongRelations)]) \<and>
   fst (get_display_name (run_rt 0) (Ref NBVLAN 1) None False
          [(Ref NBVLAN 1, vlan_100 [(''name'', PStr ''prod'')])])
     \<noteq> Inr (PStr ''100'')"
  by code_simp

subsection \<open>An unknown discriminator of an IP address\<close>

lemma display_name_plain:
  assumes "map_of h self = Some ob" "secondary_key (ref_cls self) = None"
    "ref_cls self \<noteq> NBVLAN" "0 < rt_limit rt"
  shows "get_display_name rt self None inc h = (Inr (dict_get (data ob) (primary_key (ref_cls self))), h, [])"
proof -
  obtain n where n: "rt_limit rt = Suc n" using assms(4) by (cases "rt_limit rt") auto
  show ?thesis
    using assms(1-3)
    by (simp add: get_display_name_def n display_name_depth_Suc base_get_display_name_def
        this_data_set_def sbind_get_obj sreturn_def)
qed

text \<open>
  Claim C9. For an IP address whose attribute \<^verbatim>\<open>assigned_object_type\<close> holds a value that
  is not \<^verbatim>\<open>None\<close> and is none of the two keys of the type-selection table, relation
  resolution logs the error and ends the run with the process exit; it stores nothing.
  (One frame of the interpreter's stack is left for the display name in the message.)
\<close>

theorem invalid_discriminator_exits:
  assumes "ref_cls self = NBIPAddress" "map_of h self = Some ob"
    "dict_get (data ob) ''assigned_object_type'' = v"
    "v \<noteq> PNone" "v \<noteq> PStr ''dcim.interface''" "v \<noteq> PStr ''virtualization.vminterface''"
    "0 < rt_limit rt"
  shows "resolve_relations rt self h = (Inl SystemExit, h, [(Error, InvalidObjectType)])"
proof -
  have notin: "\<not> py_in v (choice_strings NBIPAddress ''assigned_object_type'')"
    using assms(5,6) by (simp add: py_in_def choice_strings_def)
  have dn: "get_display_name rt self None False h =
      (Inr (dict_get (data ob) (primary_key (ref_cls self))), h, [])"
    using assms by (intro display_name_plain) simp_all
  note kd = sbind_known [where m = "get_display_name rt self None False" and h = h, OF dn]
  show ?thesis
    using assms(1-4) notin
    by (simp add: resolve_relations_def ip_resolve_relations_def sbind_get_obj Let_def
        do_error_exit_def kd sbind_slog sraise_def)
qed

theorem invalid_discriminator_exits_witness:
  "resolve_relations (run_rt 0) (Ref NBIPAddress 1)
     [(Ref NBIPAddress 1, (default_object NBIPAddress)\<lparr>data :=
         [(''address'', PStr ''10.0.0.1/24''), (''assigned_object_type'', PStr ''dcim.cable'')]\<rparr>)]
   = (Inl SystemExit,
      [(Ref NBIPAddress 1, (default_object NBIPAddress)\<lparr>data :=
         [(''address'', PStr ''10.0.0.1/24''), (''assigned_object_type'', PStr ''dcim.cable'')]\<rparr>)],
      [(Error, InvalidObjectType)])"
  using invalid_discriminator_exits [of "Ref NBIPAddress 1"
      "[(Ref NBIPAddress 1, (default_object NBIPAddress)\<lparr>data :=
         [(''address'', PStr ''10.0.0.1/24''), (''assigned_object_type'', PStr ''dcim.cable'')]\<rparr>)]"
      "(default_object NBIPAddress)\<lparr>data :=
         [(''address'', PStr ''10.0.0.1/24''), (''assigned_object_type'', PStr ''dcim.cable'')]\<rparr>"
      "PStr ''dcim.cable''" "run_rt 0"]
  by (simp add: dict_get_def plain_rt_def)

subsection \<open>A key that the schema lacks\<close>

lemma skips_prepend:
  assumes "skips R key (r, h, l) (r0, h0, l0)"
  shows "skips R key (r, h, la @ l) (r0, h0, la @ l0)"
proof -
  from assms have eq: "rel_sum (=) R r r0" "h = h0"
    and alt: "(isl r \<and> l = l0) \<or> (\<exists>l1 l2. l = l1 @ (Error, UndefinedKey key) # l2 \<and> l0 = l1 @ l2)"
    by (auto simp add: skips_def)
  from alt show ?thesis
  proof
    assume "isl r \<and> l = l0"
    with eq show ?thesis by (simp add: skips_def)
  next
    assume "\<exists>l1 l2. l = l1 @ (Error, UndefinedKey key) # l2 \<and> l0 = l1 @ l2"
    then obtain l1 l2 where "l = l1 @ (Error, UndefinedKey key) # l2" "l0 = l1 @ l2" by blast
    then have "la @ l = (la @ l1) @ (Error, UndefinedKey key) # l2 \<and> la @ l0 = (la @ l1) @ l2"
      by simp
    then have "\<exists>k1 k2. la @ l = k1 @ (Error, UndefinedKey key) # k2 \<and> la @ l0 = k1 @ k2"
      by blast
    with eq show ?thesis by (simp add: skips_def)
  qed
qed

lemma skips_sbind_same:
  assumes "\<And>x h1. skips R key (f x h1) (g x h1)"
  shows "skips R key (sbind m f h) (sbind m g h)"
proof (cases "m h")
  case (fields r h1 l1)
  show ?thesis
  proof (cases r)
    case (Inl e)
    with fields show ?thesis by (simp add: sbind_def skips_def)
  next
    case (Inr x)
    obtain r2 h2 l2 where f: "f x h1 = (r2, h2, l2)" by (cases "f x h1")
    obtain r3 h3 l3 where g: "g x h1 = (r3, h3, l3)" by (cases "g x h1")
    from assms [of x h1] f g have "skips R key (r2, h2, l2) (r3, h3, l3)" by simp
    then have "skips R key (r2, h2, l1 @ l2) (r3, h3, l1 @ l3)" by (rule skips_prepend)
    with fields Inr f g show ?thesis by (simp add: sbind_def)
  qed
qed

lemma skips_sbind_after:
  assumes m: "skips (=) key (m h) (m0 h)"
    and f: "\<And>x h1. case f x h1 of (r, h2, l) \<Rightarrow> case g x h1 of (r0, h0, l0) \<Rightarrow>
              rel_sum (=) R r r0 \<and> h2 = h0 \<and> l = l0"
  shows "skips R key (sbind m f h) (sbind m0 g h)"
proof (cases "m h")
  case (fields r h1 l1)
  obtain r0 h0 l0 where m0: "m0 h = (r0, h0, l0)" by (cases "m0 h")
  from m fields m0 have eq: "r0 = r" "h0 = h1" by (auto simp add: skips_def sum.rel_eq)
  show ?thesis
  proof (cases r)
    case (Inl e)
    with m fields m0 eq show ?thesis by (simp add: sbind_def skips_def)
  next
    case (Inr x)
    obtain r2 h2 l2 where fx: "f x h1 = (r2, h2, l2)" by (cases "f x h1")
    obtain r3 h3 l3 where gx: "g x h1 = (r3, h3, l3)" by (cases "g x h1")
    from f [of x h1] fx gx have rel: "rel_sum (=) R r2 r3" "h2 = h3" "l2 = l3" by simp_all
    from m fields m0 eq Inr
    have "\<exists>k1 k2. l1 = k1 @ (Error, UndefinedKey key) # k2 \<and> l0 = k1 @ k2"
      by (auto simp add: skips_def)
    then obtain k1 k2 where "l1 = k1 @ (Error, UndefinedKey key) # k2" "l0 = k1 @ k2" by blast
    then have "l1 @ l2 = k1 @ (Error, UndefinedKey key) # (k2 @ l2) \<and> l0 @ l2 = k1 @ (k2 @ l2)"
      by simp
    then have "\<exists>j1 j2. l1 @ l2 = j1 @ (Error, UndefinedKey key) # j2 \<and> l0 @ l2 = j1 @ j2"
      by blast
    with fields m0 eq Inr fx gx rel show ?thesis by (simp add: sbind_def skips_def)
  qed
qed

lemma skips_cons: "skips (=) key (r, h, (Error, UndefinedKey key) # l) (r, h, l)"
proof -
  have "(Error, UndefinedKey key) # l = [] @ (Error, UndefinedKey key) # l \<and> l = [] @ l" by simp
  then have "\<exists>l1 l2. (Error, UndefinedKey key) # l = l1 @ (Error, UndefinedKey key) # l2 \<and> l = l1 @ l2"
    by blast
  then show ?thesis by (simp add: skips_def sum.rel_eq)
qed

lemma parse_unknown:
  "map_of (data_model (ref_cls self)) key = None \<Longrightarrow>
   parse_item rt self src (key, v) = scontinue (UndefinedKey key)"
  by (simp add: parse_item_def)

lemma parse_items_skips:
  assumes "map_of (data_model (ref_cls self)) key = None"
  shows "skips (=) key (parse_items rt self src parsed (xs @ (key, v) # ys) h)
                   (parse_items rt self src parsed (xs @ ys) h)"
proof (induction xs arbitrary: parsed h)
  case Nil
  obtain r0 h0 l0 where p: "parse_items rt self src parsed ys h = (r0, h0, l0)"
    by (cases "parse_items rt self src parsed ys h")
  have a: "parse_items rt self src parsed ((key, v) # ys) h = (r0, h0, (Error, UndefinedKey key) # l0)"
    using assms p by (simp add: parse_unknown scontinue_def sbind_slog)
  show ?case by (simp only: append_Nil a p skips_cons)
next
  case (Cons x xs)
  show ?case
    by (simp, rule skips_sbind_same) (rule Cons.IH)
qed

lemma dict_get_skip:
  "k \<noteq> key \<Longrightarrow> dict_get (xs @ (key, v) # ys) k = dict_get (xs @ ys) k"
  by (simp add: dict_get_def map_of_append map_add_def split: option.splits)

lemma primary_key_in_schema: "map_of (data_model c) (primary_key c) \<noteq> None"
  by (cases c) simp_all

lemma secondary_key_in_schema: "secondary_key c = Some sk \<Longrightarrow> map_of (data_model c) sk \<noteq> None"
  by (cases c) auto

lemma site_in_schema: "map_of (data_model NBVLAN) ''site'' \<noteq> None"
  by simp

lemma display_name_skip:
  assumes "map_of (data_model (ref_cls self)) key = None"
  shows "display_name_depth rt n self (Some (xs @ (key, v) # ys)) inc =
         display_name_depth rt n self (Some (xs @ ys)) inc"
proof (cases n)
  case 0
  then show ?thesis by (simp add: display_name_depth.simps)
next
  case (Suc m)
  have pk: "primary_key (ref_cls self) \<noteq> key"
    using assms primary_key_in_schema [of "ref_cls self"] by auto
  have sk: "secondary_key (ref_cls self) = Some k \<Longrightarrow> k \<noteq> key" for k
    using assms secondary_key_in_schema [of "ref_cls self" k] by auto
  have site: "ref_cls self = NBVLAN \<Longrightarrow> ''site'' \<noteq> key"
    using assms site_in_schema by auto
  have base: "base_get_display_name rt rec self (Some (xs @ (key, v) # ys)) inc =
      base_get_display_name rt rec self (Some (xs @ ys)) inc" for rec
  proof (cases "secondary_key (ref_cls self)")
    case None
    then show ?thesis using pk
      by (simp add: base_get_display_name_def this_data_set_def dict_get_skip)
  next
    case (Some k)
    then show ?thesis using pk sk [OF Some]
      by (simp add: base_get_display_name_def this_data_set_def dict_get_skip cong: if_cong)
  qed
  show ?thesis
  proof (cases "ref_cls self = NBVLAN")
    case True
    then have "''vid'' \<noteq> key" "''site'' \<noteq> key" using pk site by simp_all
    with True show ?thesis
      by (simp add: Suc display_name_depth_Suc vlan_get_display_name_def base this_data_set_def
          dict_get_skip Let_def cong: if_cong)
  next
    case False
    then show ?thesis by (simp add: Suc display_name_depth_Suc base)
  qed
qed

lemma same_result: "case m h of (r, h2, l) \<Rightarrow> case m h of (r0, h0, l0) \<Rightarrow> rel_sum (=) (=) r r0 \<and> h2 = h0 \<and> l = l0"
  by (simp add: sum.rel_eq split: prod.splits)

lemma base_update_skips:
  assumes "map_of (data_model (ref_cls self)) key = None" "key \<noteq> ''id''"
  shows "skips (=) key (base_update rt self (PDict (xs @ (key, v) # ys)) False src h)
                       (base_update rt self (PDict (xs @ ys)) False src h)"
proof -
  have id: "dict_get (xs @ (key, v) # ys) ''id'' = dict_get (xs @ ys) ''id''"
    using assms(2) by (simp add: dict_get_skip)
  have dn: "get_display_name rt self (Some (xs @ (key, v) # ys)) False =
      get_display_name rt self (Some (xs @ ys)) False"
    by (simp add: get_display_name_def display_name_skip [OF assms(1)])
  show ?thesis
    unfolding base_update_def update_from_source_def pyval.case id dn if_False
    apply (rule skips_sbind_same)+
    apply (rule skips_sbind_after)
     apply (rule parse_items_skips [OF assms(1)])
    apply (rule same_result)
    done
qed

lemma without_dict_set:
  assumes "k \<noteq> key" "without key d d0"
  shows "without key (dict_set k w d) (dict_set k w d0)"
proof -
  from assms(2) obtain xs v ys where d: "d = xs @ (key, v) # ys" "d0 = xs @ ys"
    unfolding without_def by blast
  have "\<exists>xs' ys'. dict_set k w (xs @ (key, v) # ys) = xs' @ (key, v) # ys' \<and>
      dict_set k w (xs @ ys) = xs' @ ys'"
  proof (induction xs)
    case Nil
    have "dict_set k w ([] @ (key, v) # ys) = [] @ (key, v) # dict_set k w ys \<and>
        dict_set k w ([] @ ys) = [] @ dict_set k w ys"
      using assms(1) by (simp add: dict_set_def)
    then show ?case by blast
  next
    case (Cons a xs)
    then obtain xs' ys' where IH: "dict_set k w (xs @ (key, v) # ys) = xs' @ (key, v) # ys'"
      "dict_set k w (xs @ ys) = xs' @ ys'" by blast
    show ?case
    proof (cases "fst a = k")
      case True
      then have "dict_set k w ((a # xs) @ (key, v) # ys) = ((k, w) # xs) @ (key, v) # ys \<and>
          dict_set k w ((a # xs) @ ys) = ((k, w) # xs) @ ys"
        by (cases a) (simp add: dict_set_def)
      then show ?thesis by blast
    next
      case False
      then have "dict_set k w ((a # xs) @ (key, v) # ys) = (a # xs') @ (key, v) # ys' \<and>
          dict_set k w ((a # xs) @ ys) = (a # xs') @ ys'"
        using IH by (cases a) (simp add: dict_set_def)
      then show ?thesis by blast
    qed
  qed
  then show ?thesis unfolding without_def d by blast
qed

lemma base_update_without:
  assumes "map_of (data_model (ref_cls self)) key = None" "key \<noteq> ''id''" "without key d d0"
  shows "skips (=) key (base_update rt self (PDict d) False src h)
                       (base_update rt self (PDict d0) False src h)"
  using assms(3) base_update_skips [OF assms(1,2)]
  unfolding without_def by blast

lemma skips_then:
  assumes m: "skips (=) key (m h) (m0 h)"
    and f: "\<And>x h1. snd (f x h1) = snd (g x h1) \<and> (case fst (f x h1) of Inl e \<Rightarrow> fst (g x h1) = Inl e | Inr y \<Rightarrow> \<not> isl (fst (g x h1)))"
  shows "skips (\<lambda>_ _. True) key (sbind m f h) (sbind m0 g h)"
proof (rule skips_sbind_after [where m = m and h = h and ?m0.0 = m0])
  show "skips (=) key (m h) (m0 h)" by (rule m)
next
  fix x h1
  obtain r h2 l where a: "f x h1 = (r, h2, l)" by (cases "f x h1")
  obtain r0 h0 l0 where b: "g x h1 = (r0, h0, l0)" by (cases "g x h1")
  from f [of x h1] a b have "h2 = h0" "l = l0" "rel_sum (=) (\<lambda>_ _. True) r r0"
    by (cases r; cases r0; simp)+
  then show "case f x h1 of (r, h2, l) \<Rightarrow> case g x h1 of (r0, h0, l0) \<Rightarrow>
      rel_sum (=) (\<lambda>_ _. True) r r0 \<and> h2 = h0 \<and> l = l0"
    by (simp add: a b)
qed

lemma update_tail_without:
  assumes "map_of (data_model (ref_cls self)) key = None" "key \<noteq> ''id''" "without key d d0"
    and "\<And>x h1. snd (t (PDict d) x h1) = snd (t (PDict d0) x h1) \<and>
           (case fst (t (PDict d) x h1) of Inl e \<Rightarrow> fst (t (PDict d0) x h1) = Inl e
            | Inr y \<Rightarrow> \<not> isl (fst (t (PDict d0) x h1)))"
  shows "skips (\<lambda>_ _. True) key
           (sbind (base_update rt self (PDict d) False src) (t (PDict d)) h)
           (sbind (base_update rt self (PDict d0) False src) (t (PDict d0)) h)"
  by (rule skips_then [where m = "base_update rt self (PDict d) False src"
        and ?m0.0 = "base_update rt self (PDict d0) False src" and h = h])
     (rule base_update_without [OF assms(1-3)], rule assms(4))

text \<open>
  Claim C7, as amended. An update that is not read from NetBox skips a key that the schema
  of the entity lacks, with one error record and no exception of its own, and goes on with
  the keys that are left, whenever it reaches the loop over the raw data: the update of the
  data with the key and the update of the data without it end alike (the same exception, or
  both return), leave the same store, and write the same log but for the one error record
  of the undefined key, or the very same log when an exception ends both before the key is
  looked at. Every update reaches the loop but that of an IP prefix whose prefix does not
  parse. The key is any but \<^verbatim>\<open>id\<close>, which is in no schema and sets the remote id.
\<close>

theorem update_skips_unknown_key:
  assumes unknown: "map_of (data_model (ref_cls self)) key = None" and id: "key \<noteq> ''id''"
    and prefix: "ref_cls self = NBPrefix \<Longrightarrow> prefix_parses rt (xs @ ys)"
  shows "skips (\<lambda>_ _. True) key
           (update rt self (PDict (xs @ (key, v) # ys)) False src h)
           (update rt self (PDict (xs @ ys)) False src h)"
proof -
  let ?d = "xs @ (key, v) # ys" and ?e = "xs @ ys"
  have w: "without key ?d ?e" unfolding without_def by blast
  note tail = update_tail_without [OF unknown id]
  have ret: "skips (\<lambda>_ _. True) key
      (sbind (base_update rt self (PDict d) False src) (\<lambda>_. sreturn (PDict d)) h1)
      (sbind (base_update rt self (PDict d0) False src) (\<lambda>_. sreturn (PDict d0)) h1)"
    if "without key d d0" for d d0 h1
    by (rule tail [where t = "\<lambda>raw _. sreturn raw", OF that]) (simp add: sreturn_def)
  consider (vlan) "ref_cls self = NBVLAN" | (prefix) "ref_cls self = NBPrefix"
    | (ip) "ref_cls self = NBIPAddress"
    | (base) "ref_cls self \<noteq> NBVLAN" "ref_cls self \<noteq> NBPrefix" "ref_cls self \<noteq> NBIPAddress"
    by blast
  then show ?thesis
  proof cases
    case base
    then show ?thesis using ret [OF w] by (simp add: update_def)
  next
    case vlan
    with unknown have k: "''name'' \<noteq> key" by auto
    have "skips (\<lambda>_ _. True) key
        (sbind (if \<not> False \<and> grab_data ob ''name'' PNone \<noteq> PNone
                then spure (raw_set ''name'' (grab_data ob ''name'' PNone) (PDict ?d))
                else sreturn (PDict ?d))
           (\<lambda>raw1. sbind (base_update rt self raw1 False src) (\<lambda>_. sreturn raw1)) h1)
        (sbind (if \<not> False \<and> grab_data ob ''name'' PNone \<noteq> PNone
                then spure (raw_set ''name'' (grab_data ob ''name'' PNone) (PDict ?e))
                else sreturn (PDict ?e))
           (\<lambda>raw1. sbind (base_update rt self raw1 False src) (\<lambda>_. sreturn raw1)) h1)" for ob h1
      using ret [OF w] ret [OF without_dict_set [OF k w]]
      by (cases "grab_data ob ''name'' PNone \<noteq> PNone") simp_all
    then have "skips (\<lambda>_ _. True) key (vlan_update rt self (PDict ?d) False src h)
        (vlan_update rt self (PDict ?e) False src h)"
      unfolding vlan_update_def by (rule skips_sbind_same)
    with vlan show ?thesis by (simp add: update_def)
  next
    case prefix
    with unknown have k: "''prefix'' \<noteq> key" by auto
    let ?p = "dict_get ?e ''prefix''"
    have p: "dict_get ?d ''prefix'' = ?p" using k by (simp add: dict_get_skip)
    have raise: "skips (\<lambda>_ _. True) key
        (sbind (base_update rt self (PDict d) False src) (\<lambda>_. sraise ValueError) h1)
        (sbind (base_update rt self (PDict d0) False src) (\<lambda>_. sraise ValueError) h1)"
      if "without key d d0" for d d0 h1
      by (rule tail [where t = "\<lambda>raw _. sraise ValueError", OF that]) (simp add: sraise_def)
    from assms(3) [OF prefix] consider (plain) "?p = PNone \<or> is_network ?p"
      | (parsed) net where "?p \<noteq> PNone" "\<not> is_network ?p" "rt_ip_network rt ?p = Inr net"
      unfolding prefix_parses_def Let_def by (cases "rt_ip_network rt ?p") auto
    then have "skips (\<lambda>_ _. True) key (prefix_update rt self (PDict ?d) False src h)
        (prefix_update rt self (PDict ?e) False src h)"
    proof cases
      case plain
      then show ?thesis
        using raise [OF w] prefix by (auto simp add: prefix_update_def p)
    next
      case parsed
      then show ?thesis
        using raise [OF without_dict_set [OF k w]] prefix by (simp add: prefix_update_def p)
    qed
    with prefix show ?thesis by (simp add: update_def)
  next
    case ip
    with unknown have k: "''assigned_object_type'' \<noteq> key" "''assigned_object_id'' \<noteq> key" by auto
    let ?ty = "dict_get ?e ''assigned_object_type''"
    let ?ao = "dict_get ?e ''assigned_object_id''"
    have g: "dict_get ?d ''assigned_object_type'' = ?ty" "dict_get ?d ''assigned_object_id'' = ?ao"
      using k by (simp_all add: dict_get_skip)
    let ?tail = "\<lambda>raw1. (\<lambda>_::unit. sbind (get_obj self) (\<lambda>ob.
                     sbind (if ''assigned_object_id'' \<in> set (updated_items ob)
                            then modify_obj self (\<lambda>ob. ob\<lparr>updated_items :=
                                   updated_items ob @ [''assigned_object_type'']\<rparr>)
                            else sreturn ()) (\<lambda>_. sreturn raw1)))"
    have rest: "skips (\<lambda>_ _. True) key
        (sbind (base_update rt self (PDict d) False src) (?tail (PDict d)) h1)
        (sbind (base_update rt self (PDict d0) False src) (?tail (PDict d0)) h1)"
      if "without key d d0" for d d0 h1
      by (rule tail [where t = ?tail, OF that])
         (auto simp add: sbind_def get_obj_def modify_obj_def sreturn_def split: option.splits)
    consider (same) "?ao = PNone" | (handle) r0 where "?ao = PObj r0"
      | (other) "?ao \<noteq> PNone" "\<And>r0. ?ao \<noteq> PObj r0"
      by blast
    then have "skips (\<lambda>_ _. True) key (ip_update rt self (PDict ?d) False src h)
        (ip_update rt self (PDict ?e) False src h)"
    proof cases
      case same
      then show ?thesis using rest [OF w] by (simp add: ip_update_def g)
    next
      case handle
      then show ?thesis
        using rest [OF without_dict_set [OF k(1) w]] by (simp add: ip_update_def g)
    next
      case other
      from other(2) have cs: "\<And>f g. (case ?ao of PObj r \<Rightarrow> f r | _ \<Rightarrow> g) = g"
        by (cases ?ao) auto
      have eq: "ip_update rt self (PDict d) False src =
          sbind (spure (relation_of_type ?ty)) (\<lambda>c.
          sbind (inv_add rt c ?ao None) (\<lambda>found.
          sbind (base_update rt self (PDict (dict_set ''assigned_object_id'' found d)) False src)
            (?tail (PDict (dict_set ''assigned_object_id'' found d)))))"
        if "dict_get d ''assigned_object_type'' = ?ty" "dict_get d ''assigned_object_id'' = ?ao" for d
        using other(1) by (simp add: ip_update_def that cs)
      show ?thesis
        unfolding eq [OF g] eq [OF refl refl]
        by (intro skips_sbind_same rest without_dict_set [OF k(2) w])
    qed
    with ip show ?thesis by (simp add: update_def)
  qed
qed

theorem update_skips_unknown_key_witness:
  "skips (\<lambda>_ _. True) ''bogus''
     (update (run_rt 0) (Ref NBTenant 1) (PDict [(''bogus'', PInt 1), (''name'', PStr ''x'')])
        False None tenant_1)
     (update (run_rt 0) (Ref NBTenant 1) (PDict [(''name'', PStr ''x'')]) False None tenant_1)"
  using update_skips_unknown_key [of "Ref NBTenant 1" "''bogus''" "run_rt 0" "[]"
      "[(''name'', PStr ''x'')]" "PInt 1" None tenant_1]
  by simp

text \<open>
  The scenario of the claim: the name is stored, with the slug made of it, the key
  \<^verbatim>\<open>bogus\<close> is skipped with an error, and the update returns.
\<close>

lemma unknown_key_scenario:
  "update (run_rt 0) (Ref NBTenant 1) (PDict [(''bogus'', PInt 1), (''name'', PStr ''x'')])
        False None tenant_1
   = (Inr (PDict [(''bogus'', PInt 1), (''name'', PStr ''x'')]),
      [(Ref NBTenant 1, (default_object NBTenant)\<lparr>data :=
          [(''tags'', PObjList NBTagList []), (''name'', PStr ''x''), (''slug'', PStr ''x'')],
          updated_items := [''name'', ''slug'']\<rparr>)],
      [(Debug2, Parsing (PStr ''x'')), (Error, UndefinedKey ''bogus'')])"
  by code_simp

text \<open>
  The claim as stated fails for an IP prefix: the update of a prefix that does not parse is
  given up before the loop, so the key that the schema lacks is not reported and no key that
  is left is processed.
\<close>

theorem abandoned_prefix_skips_silently:
  "update (run_rt 0) (Ref NBPrefix 1)
     (PDict [(''bogus'', PInt 1), (''description'', PStr ''lab''), (''prefix'', PStr ''garbage'')])
     False None prefix_1
   = (Inr (PDict [(''bogus'', PInt 1), (''description'', PStr ''lab''),
                  (''prefix'', PStr ''garbage'')]),
      prefix_1, [(Error, PrefixUnparsable)])"
  by code_simp

subsection \<open>What a computation keeps\<close>

lemma reads_keeps: "reads K m \<Longrightarrow> keeps I K m"
  by (auto simp add: reads_def keeps_def split: prod.splits)

lemma reads_sreturn [simp]: "reads K (sreturn x)"
  by (simp add: reads_def sreturn_def)

lemma reads_sraise [simp]: "reads K (sraise e)"
  by (simp add: reads_def sraise_def)

lemma reads_spure [simp]: "reads K (spure r)"
  by (simp add: reads_def spure_def)

lemma reads_get_obj [simp]: "reads K (get_obj r)"
  by (simp add: reads_def get_obj_def split: option.splits)

lemma reads_slog: "quiet K (lv, ev) \<Longrightarrow> reads K (slog lv ev)"
  by (simp add: reads_def slog_def)

lemma reads_sbind: "reads K m \<Longrightarrow> (\<And>x. reads K (f x)) \<Longrightarrow> reads K (sbind m f)"
  unfolding reads_def sbind_def
  by (auto split: prod.splits sum.splits) (metis (mono_tags, lifting) case_prod_conv)+

lemma keeps_sbind: "keeps I K m \<Longrightarrow> (\<And>x. keeps I K (f x)) \<Longrightarrow> keeps I K (sbind m f)"
  unfolding keeps_def sbind_def
  by (auto split: prod.splits sum.splits) (metis (mono_tags, lifting) case_prod_conv)+

lemma reads_py_str [simp]: "reads K (py_str rt v)"
  by (simp add: reads_def py_str_def split: pyval.splits)

lemma reads_format_name [simp]: "reads K (format_name rt a b)"
  by (simp add: format_name_def reads_sbind)

lemma reads_this_data_set [simp]: "reads K (this_data_set self d)"
  by (simp add: this_data_set_def reads_sbind split: option.splits)

lemma reads_inv_get_by_data [simp]: "reads K (inv_get_by_data rt c d)"
  by (simp add: reads_def inv_get_by_data_def)

lemma reads_inv_get_by_id [simp]: "reads K (inv_get_by_id rt c d)"
  by (simp add: reads_def inv_get_by_id_def)

lemma reads_base_display_name:
  assumes rec: "\<And>r d inc. reads K (rec r d inc)"
  shows "reads K (base_get_display_name rt rec self d inc)"
  unfolding base_get_display_name_def Let_def
  by (intro reads_sbind reads_this_data_set reads_py_str reads_format_name)
     (auto intro!: reads_sbind reads_slog rec simp add: quiet_def split: option.splits pyval.splits)

lemma reads_vlan_display_name:
  assumes rec: "\<And>r d inc. reads K (rec r d inc)"
  shows "reads K (vlan_get_display_name rt rec self d inc)"
  unfolding vlan_get_display_name_def Let_def
  by (intro reads_sbind reads_this_data_set reads_base_display_name rec)
     (auto intro!: reads_sbind rec split: pyval.splits)

lemma reads_display_name_depth [simp]: "reads K (display_name_depth rt n self d inc)"
proof (induction n arbitrary: self d inc)
  case 0
  then show ?case by (simp add: display_name_depth.simps)
next
  case (Suc n)
  show ?case
    by (simp add: display_name_depth_Suc reads_vlan_display_name reads_base_display_name Suc.IH)
qed

lemma reads_get_display_name [simp]: "reads K (get_display_name rt self d inc)"
  by (simp add: get_display_name_def)

lemma reads_value_display_name [simp]:
  shows "reads K (value_display_name rt v)" and "reads K (member_display_names rt vs)"
  by (induction rt v and rt vs rule: value_display_name_member_display_names.induct)
     (simp_all add: reads_sbind)

lemma reads_resolve_members [simp]: "reads K (resolve_members rt c items)"
  by (induction items) (simp_all add: reads_sbind)

lemma reads_get_tags [simp]: "reads K (get_tags rt self)"
  unfolding get_tags_def
  by (intro reads_sbind reads_get_obj reads_value_display_name) (simp split: option.splits)

lemma reads_extract_tags [simp]: "reads K (extract_tags rt v)"
  by (cases v) (simp_all add: reads_sbind)

lemma reads_extract_all [simp]: "reads K (extract_all rt vs)"
  by (induction vs) (simp_all add: reads_sbind)

lemma reads_current_value_str [simp]: "reads K (current_value_str rt c key v)"
  unfolding current_value_str_def
  by (auto intro!: reads_sbind split: pyval.splits)

lemma reads_new_value_str [simp]: "reads K (new_value_str rt v)"
  unfolding new_value_str_def
  by (auto intro!: reads_sbind)

lemma reads_same_number [simp]: "reads K (same_number rt c key a b)"
  unfolding same_number_def
  by (auto intro!: reads_sbind)

lemma reads_scontinue: "quiet K (Error, ev) \<Longrightarrow> reads K (scontinue ev)"
  by (simp add: scontinue_def reads_sbind reads_slog)

lemma reads_check_max_len [simp]: "reads K (check_max_len key dt v)"
  unfolding check_max_len_def Let_def
  by (auto intro!: reads_sbind reads_scontinue simp add: quiet_def split: dtype.splits pyval.splits)

lemma reads_check_choice [simp]: "reads K (check_choice key dt v)"
  unfolding check_choice_def
  by (auto intro!: reads_scontinue simp add: quiet_def split: pyval.splits)

lemma reads_check_type [simp]: "reads K (check_type key dt v)"
  unfolding check_type_def
  by (auto intro!: reads_scontinue simp add: quiet_def)

lemma reads_add_slug [simp]: "reads K (add_slug c parsed)"
  unfolding add_slug_def by (auto intro!: reads_sbind)

lemmas keeps_reads [simp] =
  reads_keeps [OF reads_sreturn] reads_keeps [OF reads_sraise] reads_keeps [OF reads_spure]
  reads_keeps [OF reads_get_obj] reads_keeps [OF reads_py_str] reads_keeps [OF reads_format_name]
  reads_keeps [OF reads_inv_get_by_data] reads_keeps [OF reads_inv_get_by_id]
  reads_keeps [OF reads_get_display_name] reads_keeps [OF reads_value_display_name(1)]
  reads_keeps [OF reads_value_display_name(2)] reads_keeps [OF reads_resolve_members]
  reads_keeps [OF reads_get_tags] reads_keeps [OF reads_extract_tags]
  reads_keeps [OF reads_extract_all] reads_keeps [OF reads_current_value_str]
  reads_keeps [OF reads_new_value_str] reads_keeps [OF reads_same_number]
  reads_keeps [OF reads_check_max_len] reads_keeps [OF reads_check_choice]
  reads_keeps [OF reads_check_type] reads_keeps [OF reads_add_slug]

lemma keeps_slog: "quiet K (lv, ev) \<Longrightarrow> keeps I K (slog lv ev)"
  by (rule reads_keeps) (rule reads_slog)

lemma keeps_scontinue: "quiet K (Error, ev) \<Longrightarrow> keeps I K (scontinue ev)"
  by (rule reads_keeps) (rule reads_scontinue)

lemma keeps_modify_obj:
  assumes "\<And>ob. r = self \<Longrightarrow> P ob \<Longrightarrow> P (f ob)"
  shows "keeps (on_self self P) K (modify_obj r f)"
  unfolding keeps_def modify_obj_def on_self_def
  using assms by (auto simp add: update_conv' split: option.splits)

lemma keeps_set_data:
  assumes "\<And>ob. r = self \<Longrightarrow> P ob \<Longrightarrow> P (ob\<lparr>data := dict_set k v (data ob)\<rparr>)"
  shows "keeps (on_self self P) K (set_data r k v)"
  unfolding set_data_def using assms by (rule keeps_modify_obj)

lemma keeps_inv_add:
  assumes "\<And>c d s h. I h \<Longrightarrow> I (snd (add_update_object rt c d s h))"
  shows "keeps I K (inv_add rt c d s)"
  unfolding keeps_def inv_add_def
  using assms by (auto split: prod.splits) (metis snd_conv)

lemma keeps_stamp_source:
  assumes "\<And>ob s. P ob \<Longrightarrow> P (ob\<lparr>source := s\<rparr>)"
  shows "keeps (on_self self P) K (stamp_source v src)"
  unfolding stamp_source_def
  by (cases v) (auto intro!: keeps_sbind keeps_modify_obj assms)

lemma keeps_parse_reference:
  assumes inv: "\<And>c d s h. on_self self P h \<Longrightarrow> on_self self P (snd (add_update_object rt c d s h))"
    and src: "\<And>ob s. P ob \<Longrightarrow> P (ob\<lparr>source := s\<rparr>)"
  shows "keeps (on_self self P) K (parse_reference rt s dt v)"
  unfolding parse_reference_def
  by (cases dt) (auto intro!: keeps_sbind keeps_inv_add keeps_stamp_source inv src)

lemma keeps_collect_tags:
  assumes inv: "\<And>c d s h. I h \<Longrightarrow> I (snd (add_update_object rt c d s h))"
  shows "keeps I K (collect_tags rt cur remove names)"
  by (induction names) (auto intro!: keeps_sbind keeps_inv_add inv)

lemma keeps_compile_tags:
  assumes inv: "\<And>c d s h. I h \<Longrightarrow> I (snd (add_update_object rt c d s h))"
  shows "keeps I K (compile_tags rt self tags remove)"
  unfolding compile_tags_def Let_def
  by (auto intro!: keeps_sbind keeps_collect_tags inv keeps_slog
      simp add: quiet_def)

lemma keeps_collect_vlans:
  assumes inv: "\<And>c d s h. I h \<Longrightarrow> I (snd (add_update_object rt c d s h))"
  shows "keeps I K (collect_vlans rt self acc vlans)"
  by (induction vlans arbitrary: acc)
     (auto intro!: keeps_sbind keeps_inv_add inv keeps_slog simp add: quiet_def)

lemma keeps_compile_vlans:
  assumes inv: "\<And>c d s h. I h \<Longrightarrow> I (snd (add_update_object rt c d s h))"
  shows "keeps I K (compile_vlans rt self vlans)"
  unfolding compile_vlans_def
  by (auto intro!: keeps_sbind keeps_collect_vlans inv keeps_slog simp add: quiet_def)

lemma keeps_sthen: "keeps I K m \<Longrightarrow> (\<And>x. keeps I K (f x)) \<Longrightarrow> keeps I K (sthen m f)"
  unfolding sthen_def
  by (auto intro!: keeps_sbind split: option.splits)

lemma keeps_parse_item:
  assumes inv: "\<And>c d s h. on_self self P h \<Longrightarrow> on_self self P (snd (add_update_object rt c d s h))"
    and src: "\<And>ob s. P ob \<Longrightarrow> P (ob\<lparr>source := s\<rparr>)"
  shows "keeps (on_self self P) K (parse_item rt r s kv)"
  unfolding parse_item_def Let_def
  by (auto intro!: keeps_sbind keeps_sthen keeps_parse_reference keeps_compile_tags
      keeps_compile_vlans inv src keeps_scontinue keeps_slog
      simp add: quiet_def split: option.splits)

lemma keeps_parse_items:
  assumes inv: "\<And>c d s h. on_self self P h \<Longrightarrow> on_self self P (snd (add_update_object rt c d s h))"
    and src: "\<And>ob s. P ob \<Longrightarrow> P (ob\<lparr>source := s\<rparr>)"
  shows "keeps (on_self self P) K (parse_items rt r s parsed items)"
  by (induction items arbitrary: parsed)
     (auto intro!: keeps_sbind keeps_parse_item inv src)

lemma keeps_sforeach:
  assumes "\<And>x. x \<in> set xs \<Longrightarrow> keeps I K (f x)"
  shows "keeps I K (sforeach f xs)"
  using assms by (induction xs) (auto intro!: keeps_sbind)

lemma keeps_resolve_key:
  assumes Pd: "\<And>ob k v. r = self \<Longrightarrow> resolves (ref_cls r) k \<Longrightarrow> P ob \<Longrightarrow>
      P (ob\<lparr>data := dict_set k v (data ob)\<rparr>)"
    and kd: "kd \<in> set (data_model (ref_cls r))"
  shows "keeps (on_self self P) K (resolve_key rt r kd)"
proof -
  have w: "keeps (on_self self P) K (set_data r (fst kd) v)"
    if "starts_with ''primary_ip'' (fst kd) \<or> (case snd kd of TClass c' \<Rightarrow> True | TListClass l \<Rightarrow> True | _ \<Rightarrow> False)"
    for v
  proof (rule keeps_set_data)
    fix ob assume "r = self" "P ob"
    moreover have "(fst kd, snd kd) \<in> set (data_model (ref_cls r)) \<and>
        (starts_with ''primary_ip'' (fst kd) \<or>
         (case snd kd of TClass c' \<Rightarrow> True | TListClass l \<Rightarrow> True | _ \<Rightarrow> False))"
      using kd that by simp
    then have "resolves (ref_cls r) (fst kd)"
      unfolding resolves_def by blast
    ultimately show "P (ob\<lparr>data := dict_set (fst kd) v (data ob)\<rparr>)" by (simp add: Pd)
  qed
  show ?thesis
    unfolding resolve_key_def Let_def
    by (rule keeps_sbind, simp)
       (auto intro!: keeps_sbind w keeps_slog simp add: quiet_def split: dtype.splits)
qed

lemma keeps_base_resolve_relations:
  assumes Pd: "\<And>ob k v. r = self \<Longrightarrow> resolves (ref_cls r) k \<Longrightarrow> P ob \<Longrightarrow>
      P (ob\<lparr>data := dict_set k v (data ob)\<rparr>)"
  shows "keeps (on_self self P) K (base_resolve_relations rt r)"
  unfolding base_resolve_relations_def
  by (rule keeps_sforeach) (rule keeps_resolve_key [where P = P and self = self], simp_all add: Pd)

lemma keeps_resolve_relations:
  assumes Pd: "\<And>ob k v. r = self \<Longrightarrow> resolves (ref_cls r) k \<Longrightarrow> P ob \<Longrightarrow>
      P (ob\<lparr>data := dict_set k v (data ob)\<rparr>)"
  shows "keeps (on_self self P) K (resolve_relations rt r)"
proof (cases "ref_cls r = NBIPAddress")
  case True
  have w: "keeps (on_self self P) K (set_data r ''assigned_object_id'' v)" for v
  proof (rule keeps_set_data)
    fix ob assume "r = self" "P ob"
    moreover have "resolves (ref_cls r) ''assigned_object_id''"
      using True by (simp add: resolves_def)
    ultimately show "P (ob\<lparr>data := dict_set ''assigned_object_id'' v (data ob)\<rparr>)" by (simp add: Pd)
  qed
  show ?thesis
    unfolding resolve_relations_def ip_resolve_relations_def Let_def do_error_exit_def
    using True
    by (auto intro!: keeps_sbind w keeps_slog keeps_base_resolve_relations [where P = P and self = self]
        simp add: quiet_def Pd)
next
  case False
  then have "resolve_relations rt r = base_resolve_relations rt r"
    by (simp add: resolve_relations_def)
  moreover have "keeps (on_self self P) K (base_resolve_relations rt r)"
    by (rule keeps_base_resolve_relations [where P = P and self = self]) (simp_all add: Pd)
  ultimately show ?thesis by simp
qed

lemma keeps_apply_item:
  assumes Pd: "\<And>ob k v. r = self \<Longrightarrow> resolves (ref_cls r) k \<Longrightarrow> P ob \<Longrightarrow>
      P (ob\<lparr>data := dict_set k v (data ob)\<rparr>)"
    and Pu: "\<And>ob. r = self \<Longrightarrow> P ob \<Longrightarrow>
      P (ob\<lparr>data := dict_set (fst kv) (snd kv) (data ob), updated_items := updated_items ob @ [fst kv]\<rparr>)"
    and K: "fst kv \<in> K"
  shows "keeps (on_self self P) K (apply_item rt r kv)"
  unfolding apply_item_def Let_def
  by (rule keeps_sbind, simp)
     (auto intro!: keeps_sbind keeps_modify_obj keeps_slog
        keeps_resolve_relations [where P = P and self = self]
      simp add: quiet_def K Pd Pu)

lemma keeps_update_from_source:
  assumes inv: "\<And>c d s h. on_self self P h \<Longrightarrow> on_self self P (snd (add_update_object rt c d s h))"
    and src: "\<And>ob s. P ob \<Longrightarrow> P (ob\<lparr>source := s\<rparr>)"
    and Pd: "\<And>ob k v. r = self \<Longrightarrow> resolves (ref_cls r) k \<Longrightarrow> P ob \<Longrightarrow>
      P (ob\<lparr>data := dict_set k v (data ob)\<rparr>)"
    and Pu: "\<And>ob k v. r = self \<Longrightarrow> P ob \<Longrightarrow>
      P (ob\<lparr>data := dict_set k v (data ob), updated_items := updated_items ob @ [k]\<rparr>)"
  shows "keeps (on_self self P) UNIV (update_from_source rt r d s)"
  unfolding update_from_source_def
  by (auto intro!: keeps_sbind keeps_modify_obj keeps_slog
        keeps_parse_items [where P = P and self = self] keeps_sforeach
        keeps_apply_item [where P = P and self = self]
      simp add: quiet_def inv src Pd Pu)

lemma keeps_result:
  assumes "keeps I K m" "I h" "m h = (r, h', l)"
  shows "I h'"
  using assms by (auto simp add: keeps_def)

lemma inventory_keeps_on_self:
  assumes "inventory_keeps rt self f" "on_self self (\<lambda>ob. f ob = a) h"
  shows "on_self self (\<lambda>ob. f ob = a) (snd (add_update_object rt c x s h))"
proof -
  from assms(2) obtain ob where ob: "map_of h self = Some ob" "f ob = a"
    by (auto simp add: on_self_def split: option.splits)
  from assms(1) ob(1) obtain ob' where
    "map_of (snd (add_update_object rt c x s h)) self = Some ob'" "f ob' = f ob"
    unfolding inventory_keeps_def by blast
  with ob(2) show ?thesis by (simp add: on_self_def)
qed

lemma yields_sreturn [simp]: "yields (sreturn x) Q = Q x"
  by (simp add: yields_def sreturn_def)

lemma yields_sraise [simp]: "yields (sraise e) Q"
  by (simp add: yields_def sraise_def)

lemma yields_sbind: "(\<And>x. yields (f x) Q) \<Longrightarrow> yields (sbind m f) Q"
  unfolding yields_def sbind_def
  by (auto split: prod.splits sum.splits) (metis (mono_tags, lifting) case_prod_conv old.sum.simps(6))

lemma yields_sbind2: "yields m P \<Longrightarrow> (\<And>x. P x \<Longrightarrow> yields (f x) Q) \<Longrightarrow> yields (sbind m f) Q"
  unfolding yields_def sbind_def
  by (auto split: prod.splits sum.splits) (metis (mono_tags, lifting) case_prod_conv old.sum.simps(6))

lemma keeps_sbind_yields:
  "keeps I K m \<Longrightarrow> yields m Q \<Longrightarrow> (\<And>x. Q x \<Longrightarrow> keeps I K (f x)) \<Longrightarrow> keeps I K (sbind m f)"
  unfolding keeps_def yields_def sbind_def
  by (auto split: prod.splits sum.splits)
     (metis (mono_tags, lifting) case_prod_conv old.sum.simps(6))+

lemma dict_get_dict_set_other:
  "k \<noteq> k' \<Longrightarrow> dict_get (dict_set k v d) k' = dict_get d k'"
  by (simp add: dict_get_def dict_set_def update_conv')

subsection \<open>The remote id\<close>

lemma base_update_sets_id:
  assumes ob: "map_of h self = Some ob"
    and id: "dict_get d ''id'' = v" "v \<noteq> PNone"
    and inv: "inventory_keeps rt self nb_id"
    and run: "base_update rt self (PDict d) read_from_netbox src h = (r, h', l)"
  shows "on_self self (\<lambda>ob. nb_id ob = v) h'"
proof -
  define P :: "obj \<Rightarrow> bool" where "P = (\<lambda>ob. nb_id ob = v)"
  define h1 where "h1 = AList.update self (ob\<lparr>nb_id := v\<rparr>) h"
  define rest :: "unit st" where "rest =
    (if read_from_netbox then
       modify_obj self (\<lambda>ob. ob\<lparr>is_new := False, data := d, updated_items := [], unset_items := []\<rparr>)
     else update_from_source rt self d src)"
  have P1: "on_self self P h1"
    by (simp add: on_self_def h1_def update_conv' P_def)
  have k: "keeps (on_self self P) UNIV rest"
  proof (cases read_from_netbox)
    case True
    then show ?thesis unfolding rest_def by (simp add: keeps_modify_obj P_def)
  next
    case False
    have "keeps (on_self self P) UNIV (update_from_source rt self d src)"
      by (rule keeps_update_from_source [where P = P and self = self])
         (simp_all add: P_def inventory_keeps_on_self [OF inv])
    with False show ?thesis unfolding rest_def by simp
  qed
  have "base_update rt self (PDict d) read_from_netbox src h = rest h1"
    using ob id
    by (simp add: base_update_def rest_def h1_def sbind_def modify_obj_def split: prod.splits)
  with run have "rest h1 = (r, h', l)" by simp
  from keeps_result [OF k P1 this] show ?thesis by (simp add: P_def)
qed

lemma base_update_then:
  assumes ob: "map_of h self = Some ob"
    and id: "dict_get d ''id'' = v" "v \<noteq> PNone"
    and inv: "inventory_keeps rt self nb_id"
    and tail: "\<And>x. keeps (on_self self (\<lambda>ob. nb_id ob = v)) UNIV (f x)"
    and run: "sbind (base_update rt self (PDict d) read_from_netbox src) f h = (r, h', l)"
  shows "on_self self (\<lambda>ob. nb_id ob = v) h'"
proof -
  obtain rb hb lb where b: "base_update rt self (PDict d) read_from_netbox src h = (rb, hb, lb)"
    by (cases "base_update rt self (PDict d) read_from_netbox src h") auto
  have P: "on_self self (\<lambda>ob. nb_id ob = v) hb"
    by (rule base_update_sets_id [OF ob id inv b])
  show ?thesis
  proof (cases rb)
    case (Inl e)
    with run b P show ?thesis by (simp add: sbind_def)
  next
    case (Inr x)
    obtain r2 h2 l2 where t: "f x hb = (r2, h2, l2)" by (cases "f x hb") auto
    from keeps_result [OF tail P t] run b Inr t show ?thesis by (simp add: sbind_def)
  qed
qed

text \<open>
  Claim C10, as amended. An update whose raw data have an \<^verbatim>\<open>id\<close> that is not \<^verbatim>\<open>None\<close>
  sets the remote id of the entity to it, read from NetBox or not and whatever the update
  does afterwards, whenever the update reaches \<^verbatim>\<open>NetBoxObject.update\<close>: always for an entity
  that is no IP prefix and no IP address; for an IP prefix when its prefix is missing, is a
  network already, or parses; for an IP address when the data is read from NetBox or the
  update returns (the inventory may raise before). \<^verbatim>\<open>get_nb_reference\<close> then returns this
  id, or \<^verbatim>\<open>None\<close> when the id equals \<open>0\<close>. The inventory is assumed to keep the entity and
  its remote id.
\<close>

theorem update_sets_remote_id:
  assumes ob: "map_of h self = Some ob"
    and id: "dict_get d ''id'' = v" "v \<noteq> PNone"
    and inv: "inventory_keeps rt self nb_id"
    and run: "update rt self (PDict d) read_from_netbox src h = (r, h', l)"
    and prefix: "ref_cls self = NBPrefix \<Longrightarrow> prefix_parses rt d"
    and ip: "ref_cls self = NBIPAddress \<Longrightarrow> read_from_netbox \<or> \<not> isl r"
  shows "\<exists>ob'. map_of h' self = Some ob' \<and> nb_id ob' = v \<and>
           get_nb_reference ob' = (if py_eq v (PInt 0) then PNone else v)"
proof -
  let ?P = "\<lambda>ob. nb_id ob = v"
  have goal: "on_self self ?P h'"
  proof -
    consider (vlan) "ref_cls self = NBVLAN" | (prefix) "ref_cls self = NBPrefix"
      | (ip) "ref_cls self = NBIPAddress"
      | (base) "ref_cls self \<noteq> NBVLAN" "ref_cls self \<noteq> NBPrefix" "ref_cls self \<noteq> NBIPAddress"
      by blast
    then show ?thesis
    proof cases
      case base
      with run have "sbind (base_update rt self (PDict d) read_from_netbox src) (\<lambda>_. sreturn (PDict d)) h = (r, h', l)"
        by (simp add: update_def)
      from base_update_then [OF ob id inv _ this] show ?thesis by simp
    next
      case vlan
      define d1 where "d1 = (if \<not> read_from_netbox \<and> grab_data ob ''name'' PNone \<noteq> PNone
         then dict_set ''name'' (grab_data ob ''name'' PNone) d else d)"
      have id1: "dict_get d1 ''id'' = v"
        using id by (simp add: d1_def dict_get_dict_set_other)
      from run vlan ob have "sbind (base_update rt self (PDict d1) read_from_netbox src) (\<lambda>_. sreturn (PDict d1)) h = (r, h', l)"
        by (cases "\<not> read_from_netbox \<and> grab_data ob ''name'' PNone \<noteq> PNone")
           (auto simp add: update_def vlan_update_def sbind_get_obj d1_def)
      from base_update_then [OF ob id1 id(2) inv _ this] show ?thesis by simp
    next
      case prefix
      let ?p = "dict_get d ''prefix''"
      let ?tail = "\<lambda>raw1. (\<lambda>_::unit. if \<not> read_from_netbox then sraise ValueError else sreturn raw1)"
      have tail: "\<And>raw1 x. keeps (on_self self ?P) UNIV (?tail raw1 x)" by simp
      from assms(6) [OF prefix] consider (plain) "?p = PNone \<or> is_network ?p"
        | (parsed) net where "?p \<noteq> PNone" "\<not> is_network ?p" "rt_ip_network rt ?p = Inr net"
        unfolding prefix_parses_def Let_def by (cases "rt_ip_network rt ?p") auto
      then show ?thesis
      proof cases
        case plain
        with run prefix have "sbind (base_update rt self (PDict d) read_from_netbox src) (?tail (PDict d)) h = (r, h', l)"
          by (auto simp add: update_def prefix_update_def)
        from base_update_then [OF ob id inv tail this] show ?thesis .
      next
        case parsed
        let ?d1 = "dict_set ''prefix'' net d"
        have id1: "dict_get ?d1 ''id'' = v"
          using id by (simp add: dict_get_dict_set_other)
        from parsed run prefix have "sbind (base_update rt self (PDict ?d1) read_from_netbox src) (?tail (PDict ?d1)) h = (r, h', l)"
          by (simp add: update_def prefix_update_def)
        from base_update_then [OF ob id1 id(2) inv tail this] show ?thesis .
      qed
    next
      case ip
      let ?ty = "dict_get d ''assigned_object_type''"
      let ?ao = "dict_get d ''assigned_object_id''"
      let ?tail = "\<lambda>raw1. (\<lambda>_::unit. sbind (get_obj self) (\<lambda>ob.
                     sbind (if ''assigned_object_id'' \<in> set (updated_items ob)
                            then modify_obj self (\<lambda>ob. ob\<lparr>updated_items :=
                                   updated_items ob @ [''assigned_object_type'']\<rparr>)
                            else sreturn ()) (\<lambda>_. sreturn raw1)))"
      have tail: "\<And>raw1 x. keeps (on_self self ?P) UNIV (?tail raw1 x)"
        by (intro keeps_sbind) (simp_all add: keeps_modify_obj)
      consider (same) "read_from_netbox \<or> ?ao = PNone"
        | (handle) r0 where "\<not> read_from_netbox" "?ao = PObj r0"
        | (other) "\<not> read_from_netbox" "?ao \<noteq> PNone" "\<And>r0. ?ao \<noteq> PObj r0"
        by blast
      then show ?thesis
      proof cases
        case same
        with run ip have "sbind (base_update rt self (PDict d) read_from_netbox src) (?tail (PDict d)) h = (r, h', l)"
          by (auto simp add: update_def ip_update_def)
        from base_update_then [OF ob id inv tail this] show ?thesis .
      next
        case handle
        let ?d1 = "dict_set ''assigned_object_type'' (relation_of_class (ref_cls r0)) d"
        have id1: "dict_get ?d1 ''id'' = v"
          using id by (simp add: dict_get_dict_set_other)
        from handle run ip have "sbind (base_update rt self (PDict ?d1) read_from_netbox src) (?tail (PDict ?d1)) h = (r, h', l)"
          by (simp add: update_def ip_update_def)
        from base_update_then [OF ob id1 id(2) inv tail this] show ?thesis .
      next
        case other
        from other(3) have cs: "\<And>f g. (case ?ao of PObj r \<Rightarrow> f r | _ \<Rightarrow> g) = g"
          by (cases ?ao) auto
        from assms(7) [OF ip] other(1) have ok: "\<not> isl r" by simp
        obtain c where c: "relation_of_type ?ty = Inr c"
          using run ip other(1,2) ok
          by (cases "relation_of_type ?ty") (auto simp add: update_def ip_update_def cs sraise_def)
        obtain r1 h1 where a: "add_update_object rt c ?ao None h = (r1, h1)"
          by (cases "add_update_object rt c ?ao None h") auto
        obtain found where f: "r1 = Inr found"
          using run ip other(1,2) ok c a
          by (cases r1) (auto simp add: update_def ip_update_def cs sbind_def inv_add_def spure_def sraise_def)
        let ?d1 = "dict_set ''assigned_object_id'' found d"
        have id1: "dict_get ?d1 ''id'' = v"
          using id by (simp add: dict_get_dict_set_other)
        from inv ob a obtain ob1 where ob1: "map_of h1 self = Some ob1"
          unfolding inventory_keeps_def by (metis snd_conv)
        have pre: "inv_add rt c ?ao None h = (Inr found, h1, [])"
          using a f by (simp add: inv_add_def)
        from run ip other(1,2) c have "sbind (inv_add rt c ?ao None) (\<lambda>found. 
             sbind (base_update rt self (PDict (dict_set ''assigned_object_id'' found d)) read_from_netbox src)
               (?tail (PDict (dict_set ''assigned_object_id'' found d)))) h = (r, h', l)"
          by (simp add: update_def ip_update_def cs)
        then have "sbind (base_update rt self (PDict ?d1) read_from_netbox src) (?tail (PDict ?d1)) h1 = (r, h', l)"
          by (simp add: sbind_known [where m = "inv_add rt c ?ao None" and h = h, OF pre] split: prod.splits)
        from base_update_then [OF ob1 id1 id(2) inv tail this] show ?thesis .
      qed
    qed
  qed
  then show ?thesis
    by (auto simp add: on_self_def get_nb_reference_def split: option.splits)
qed

theorem update_sets_remote_id_witness:
  "\<exists>ob'. map_of (fst (snd (update (run_rt 0) (Ref NBTenant 1)
                 (PDict [(''id'', PInt 7), (''name'', PStr ''x'')]) False None tenant_1)))
             (Ref NBTenant 1) = Some ob' \<and>
         nb_id ob' = PInt 7 \<and> get_nb_reference ob' = PInt 7"
  using update_sets_remote_id [of tenant_1 "Ref NBTenant 1" "default_object NBTenant"
      "[(''id'', PInt 7), (''name'', PStr ''x'')]" "PInt 7" "run_rt 0" False None
      "fst (update (run_rt 0) (Ref NBTenant 1)
                 (PDict [(''id'', PInt 7), (''name'', PStr ''x'')]) False None tenant_1)"
      "fst (snd (update (run_rt 0) (Ref NBTenant 1)
                 (PDict [(''id'', PInt 7), (''name'', PStr ''x'')]) False None tenant_1))"
      "snd (snd (update (run_rt 0) (Ref NBTenant 1)
                 (PDict [(''id'', PInt 7), (''name'', PStr ''x'')]) False None tenant_1))"]
  by (simp add: tenant_1_def dict_get_def inventory_keeps_def plain_rt_def)

text \<open>
  The claim as stated fails for an IP prefix: the update of a prefix that does not parse is
  given up before the id is read, the remote id stays \<open>0\<close> and \<^verbatim>\<open>get_nb_reference\<close> returns
  \<^verbatim>\<open>None\<close>.
\<close>

theorem abandoned_prefix_keeps_remote_id:
  "update (run_rt 0) (Ref NBPrefix 1) (PDict [(''id'', PInt 7), (''prefix'', PStr ''garbage'')])
     False None prefix_1
   = (Inr (PDict [(''id'', PInt 7), (''prefix'', PStr ''garbage'')]),
      prefix_1, [(Error, PrefixUnparsable)]) \<and>
   map_of prefix_1 (Ref NBPrefix 1) = Some (default_object NBPrefix) \<and>
   nb_id (default_object NBPrefix) = PInt 0 \<and>
   get_nb_reference (default_object NBPrefix) = PNone"
  by code_simp

subsection \<open>Numbers with the same float form\<close>

lemma numeric_cases:
  assumes "numeric c key"
  shows "(c, key) \<in> {(NBVLAN, ''vid''), (NBVM, ''vcpus''), (NBVM, ''memory''), (NBVM, ''disk''),
                      (NBVMInterface, ''mtu''), (NBInterface, ''mtu'')}"
  using assms unfolding numeric_def by (cases c) (simp_all split: if_splits)

lemma numeric_not_resolved: "numeric c key \<Longrightarrow> \<not> resolves c key"
  by (drule numeric_cases) (auto simp add: resolves_def starts_with_def)

lemma numeric_plain:
  "numeric c key \<Longrightarrow> \<not> starts_with ''primary_ip'' key \<and> key \<noteq> ''slug'' \<and> key \<noteq> ''name'' \<and>
     c \<noteq> NBPrefix \<and> c \<noteq> NBIPAddress"
  by (drule numeric_cases) (auto simp add: starts_with_def)

lemma yields_scontinue [simp]: "yields (scontinue ev) (\<lambda>r. r = None)"
  by (simp add: scontinue_def yields_def sbind_def slog_def sreturn_def)

lemma yields_parse_item:
  "yields (parse_item rt self src (k, v))
     (\<lambda>r. case r of None \<Rightarrow> True | Some p \<Rightarrow> fst p = k \<and> (numeric (ref_cls self) k \<longrightarrow> snd p = v))"
proof (cases "numeric (ref_cls self) k")
  case True
  note p = numeric_plain [OF True]
  from True consider "map_of (data_model (ref_cls self)) k = Some TInt"
    | "map_of (data_model (ref_cls self)) k = Some TFloat"
    unfolding numeric_def by auto
  then show ?thesis
    using p
    by cases
      (auto simp add: parse_item_def sthen_def check_max_len_def check_choice_def check_type_def
        parse_reference_def scontinue_def intro!: yields_sbind)
next
  case False
  then show ?thesis
    unfolding parse_item_def Let_def sthen_def
    by (auto intro!: yields_sbind simp add: scontinue_def split: option.splits)
qed

lemma gives_Nil [simp]: "gives key v []"
  by (simp add: gives_def)

lemma set_dict_set: "set (dict_set k v d) \<subseteq> insert (k, v) (set d)"
  unfolding dict_set_def by (induction d) auto

lemma gives_dict_set:
  "gives key v d \<Longrightarrow> k = key \<longrightarrow> v' = v \<Longrightarrow> gives key v (dict_set k v' d)"
  unfolding gives_def dict_set_def
  using set_dict_set [of k v' d] by (auto simp add: dict_set_def)

lemma gives_distinct: "distinct (map fst d) \<Longrightarrow> (key, v) \<in> set d \<Longrightarrow> gives key v d"
  unfolding gives_def by (meson eq_key_imp_eq_value)

lemma yields_parse_items:
  assumes "numeric (ref_cls self) key" "gives key v items" "gives key v parsed"
  shows "yields (parse_items rt self src parsed items) (gives key v)"
  using assms(2,3)
proof (induction items arbitrary: parsed)
  case Nil
  then show ?case by simp
next
  case (Cons kv items)
  obtain k v' where kv: "kv = (k, v')" by (cases kv)
  from Cons.prems(1) have rest: "gives key v items" and hd: "k = key \<longrightarrow> v' = v"
    by (auto simp add: gives_def kv)
  show ?case
    unfolding parse_items.simps kv
  proof (rule yields_sbind2 [OF yields_parse_item])
    fix r
    assume r: "case r of None \<Rightarrow> True | Some p \<Rightarrow> fst p = k \<and> (numeric (ref_cls self) k \<longrightarrow> snd p = v')"
    have "gives key v (case r of None \<Rightarrow> parsed | Some p \<Rightarrow> dict_set (fst p) (snd p) parsed)"
      using r hd assms(1) Cons.prems(2) by (auto split: option.splits intro!: gives_dict_set)
    then show "yields (parse_items rt self src
        (case r of None \<Rightarrow> parsed | Some p \<Rightarrow> dict_set (fst p) (snd p) parsed) items) (gives key v)"
      by (rule Cons.IH [OF rest])
  qed
qed

lemma yields_add_slug:
  assumes "key \<noteq> ''slug''" "gives key v parsed"
  shows "yields (add_slug c parsed) (gives key v)"
  unfolding add_slug_def using assms
  by (auto intro!: yields_sbind gives_dict_set)

lemma apply_item_same_number:
  assumes num: "numeric (ref_cls self) key"
    and new: "is_int_or_float new"
    and feq: "py_float rt cur = Inr a" "py_float rt new = Inr b" "float_eq a b"
  shows "keeps (on_self self (\<lambda>ob. dict_get (data ob) key = cur \<and> Q ob)) K (apply_item rt self (key, new))"
  unfolding keeps_def
proof (intro allI impI)
  fix h
  assume I: "on_self self (\<lambda>ob. dict_get (data ob) key = cur \<and> Q ob) h"
  then obtain ob where ob: "map_of h self = Some ob" "dict_get (data ob) key = cur"
    by (auto simp add: on_self_def split: option.splits)
  from feq(1) have cur: "cur \<noteq> PNone" by auto
  have same: "same_number rt (ref_cls self) key cur new = sreturn True"
    using num new feq cur by (simp add: same_number_def numeric_def)
  let ?body = "if py_eq cur new then sreturn ()
        else
          sbind (current_value_str rt (ref_cls self) key cur) (\<lambda>cur_str.
          sbind (new_value_str rt new) (\<lambda>new_str. sreturn ()))"
  have eq: "apply_item rt self (key, new) h = ?body h"
    by (simp add: apply_item_def sbind_get_obj [OF ob(1)] ob(2) same)
  have "reads K ?body"
    by (auto intro!: reads_sbind)
  then have "keeps (on_self self (\<lambda>ob. dict_get (data ob) key = cur \<and> Q ob)) K ?body"
    by (rule reads_keeps)
  with I eq show "case apply_item rt self (key, new) h of
      (r, h', l) \<Rightarrow> on_self self (\<lambda>ob. dict_get (data ob) key = cur \<and> Q ob) h' \<and> list_all (quiet K) l"
    by (simp add: keeps_def)
qed

lemma gives_other: "k \<noteq> key \<Longrightarrow> gives key v d \<Longrightarrow> gives key v (dict_set k v' d)"
  by (rule gives_dict_set) simp_all

lemma update_from_source_same_number:
  assumes num: "numeric (ref_cls self) key"
    and new: "is_int_or_float new"
    and feq: "py_float rt cur = Inr a" "py_float rt new = Inr b" "float_eq a b"
    and inv: "inventory_keeps rt self (\<lambda>ob. (dict_get (data ob) key, count_list (updated_items ob) key))"
    and d: "gives key new d"
  shows "keeps (on_self self (\<lambda>ob. dict_get (data ob) key = cur \<and> count_list (updated_items ob) key = n))
           (- {key}) (update_from_source rt self d src)"
proof -
  let ?P = "\<lambda>ob. dict_get (data ob) key = cur \<and> count_list (updated_items ob) key = n"
  let ?K = "- {key}"
  note p = numeric_plain [OF num]
  have inv': "on_self self ?P (snd (add_update_object rt c x s h))" if "on_self self ?P h" for c x s h
    using inventory_keeps_on_self [OF inv, of "(cur, n)" h c x s] that by simp
  have item: "keeps (on_self self ?P) ?K (apply_item rt self kv)" if "gives key new parsed" "kv \<in> set parsed"
    for kv parsed
  proof (cases "fst kv = key")
    case True
    with that have "kv = (key, new)" by (cases kv) (auto simp add: gives_def)
    then show ?thesis
      using apply_item_same_number [OF num new feq, where Q = "\<lambda>ob. count_list (updated_items ob) key = n" and K = ?K]
      by simp
  next
    case False
    show ?thesis
    proof (rule keeps_apply_item [where P = ?P and self = self])
      fix ob k v
      assume "resolves (ref_cls self) k" "?P ob"
      moreover from this(1) numeric_not_resolved [OF num] have "k \<noteq> key" by auto
      ultimately show "?P (ob\<lparr>data := dict_set k v (data ob)\<rparr>)"
        by (simp add: dict_get_dict_set_other)
    next
      fix ob
      assume "?P ob"
      with False show "?P (ob\<lparr>data := dict_set (fst kv) (snd kv) (data ob),
          updated_items := updated_items ob @ [fst kv]\<rparr>)"
        by (simp add: dict_get_dict_set_other)
    next
      from False show "fst kv \<in> ?K" by simp
    qed
  qed
  have loop: "keeps (on_self self ?P) ?K (sforeach (apply_item rt self) parsed)" if "gives key new parsed"
    for parsed
    by (rule keeps_sforeach) (rule item [OF that])
  have slug: "keeps (on_self self ?P) ?K
      (sbind (add_slug (ref_cls self) parsed0) (\<lambda>parsed_data. sforeach (apply_item rt self) parsed_data))"
    if "gives key new parsed0" for parsed0
    by (rule keeps_sbind_yields [where Q = "gives key new"])
       (simp_all add: yields_add_slug p that loop)
  have parse: "keeps (on_self self ?P) ?K
      (sbind (parse_items rt self src [] d) (\<lambda>parsed0.
       sbind (add_slug (ref_cls self) parsed0) (\<lambda>parsed_data. sforeach (apply_item rt self) parsed_data)))"
    by (rule keeps_sbind_yields [where Q = "gives key new"])
       (simp_all add: keeps_parse_items [where P = ?P and self = self] inv'
          yields_parse_items [OF num d] slug)
  show ?thesis
    unfolding update_from_source_def
    by (intro keeps_sbind parse)
       (auto intro!: keeps_modify_obj keeps_slog simp add: quiet_def)
qed

lemma base_update_same_number:
  assumes num: "numeric (ref_cls self) key"
    and new: "is_int_or_float new"
    and feq: "py_float rt cur = Inr a" "py_float rt new = Inr b" "float_eq a b"
    and inv: "inventory_keeps rt self (\<lambda>ob. (dict_get (data ob) key, count_list (updated_items ob) key))"
    and d: "gives key new d"
  shows "keeps (on_self self (\<lambda>ob. dict_get (data ob) key = cur \<and> count_list (updated_items ob) key = n))
           (- {key}) (base_update rt self (PDict d) False src)"
  unfolding base_update_def pyval.case if_False
  by (intro keeps_sbind update_from_source_same_number [OF assms])
     (auto intro!: keeps_modify_obj)

text \<open>
  Claim C8. The schema declares the attribute \<open>key\<close> as \<^verbatim>\<open>int\<close> or \<^verbatim>\<open>float\<close>, the raw data
  (a mapping: no key twice) give it the number \<open>new\<close>, and the float forms of the stored
  value and of \<open>new\<close> are equal. Then the update from a source, however it ends, leaves the
  stored value of the attribute as it is, appends the key to the changed attributes not
  once, and writes no change record of the key. The inventory is assumed to keep the entity,
  the stored value and the key's share of the changed attributes.
\<close>

theorem numeric_tolerance:
  assumes ob: "map_of h self = Some ob"
    and num: "map_of (data_model (ref_cls self)) key \<in> {Some TInt, Some TFloat}"
    and raw: "distinct (map fst d)" "(key, new) \<in> set d"
    and new: "is_int_or_float new"
    and feq: "py_float rt (dict_get (data ob) key) = Inr a" "py_float rt new = Inr b" "float_eq a b"
    and inv: "inventory_keeps rt self (\<lambda>ob. (dict_get (data ob) key, count_list (updated_items ob) key))"
  shows "case update rt self (PDict d) False src h of
           (r, h', l) \<Rightarrow>
             (\<exists>ob'. map_of h' self = Some ob' \<and> dict_get (data ob') key = dict_get (data ob) key \<and>
                count_list (updated_items ob') key = count_list (updated_items ob) key) \<and>
             (\<forall>lv x y. (lv, Changed key x y) \<notin> set l)"
proof -
  let ?P = "\<lambda>ob'. dict_get (data ob') key = dict_get (data ob) key \<and>
                count_list (updated_items ob') key = count_list (updated_items ob) key"
  from num have n: "numeric (ref_cls self) key" by (simp add: numeric_def)
  note p = numeric_plain [OF n]
  from raw have d: "gives key new d" by (rule gives_distinct)
  have base: "keeps (on_self self ?P) (- {key}) (base_update rt self (PDict d') False src)"
    if "gives key new d'" for d'
    by (rule base_update_same_number [OF n new feq inv that])
  have k: "keeps (on_self self ?P) (- {key}) (update rt self (PDict d) False src)"
  proof (cases "ref_cls self = NBVLAN")
    case True
    have tail: "keeps (on_self self ?P) (- {key})
        (sbind (base_update rt self (PDict d') False src) (\<lambda>_. sreturn (PDict d')))"
      if "gives key new d'" for d'
      by (intro keeps_sbind base that) simp
    have g: "gives key new (dict_set ''name'' x d)" for x
      using p d by (intro gives_other) auto
    have "keeps (on_self self ?P) (- {key})
        (sbind (if \<not> False \<and> grab_data ob' ''name'' PNone \<noteq> PNone
                then spure (raw_set ''name'' (grab_data ob' ''name'' PNone) (PDict d))
                else sreturn (PDict d))
           (\<lambda>raw1. sbind (base_update rt self raw1 False src) (\<lambda>_. sreturn raw1)))" for ob'
      using tail [OF d] tail [OF g]
      by (cases "grab_data ob' ''name'' PNone \<noteq> PNone") simp_all
    note body = this
    have "keeps (on_self self ?P) (- {key}) (vlan_update rt self (PDict d) False src)"
      unfolding vlan_update_def
      by (rule keeps_sbind) (simp_all add: tail [OF d] tail [OF g])
    with True show ?thesis by (simp add: update_def)
  next
    case False
    with p have "update rt self (PDict d) False src
        = sbind (base_update rt self (PDict d) False src) (\<lambda>_. sreturn (PDict d))"
      by (simp add: update_def)
    moreover have "keeps (on_self self ?P) (- {key}) \<dots>"
      by (intro keeps_sbind base d) simp
    ultimately show ?thesis by simp
  qed
  have I: "on_self self ?P h" using ob by (simp add: on_self_def)
  obtain r h' l where u: "update rt self (PDict d) False src h = (r, h', l)"
    by (cases "update rt self (PDict d) False src h") auto
  from k I u have "on_self self ?P h'" "list_all (quiet (- {key})) l"
    by (auto simp add: keeps_def)
  then show ?thesis
    unfolding u by (auto simp add: on_self_def list_all_iff quiet_def split: option.splits)
qed

theorem numeric_tolerance_witness:
  "case update (run_rt 0) (Ref NBVM 1) (PDict [(''vcpus'', PFloat (Finite 4))]) False None
          [(Ref NBVM 1, vm_1)] of
     (r, h', l) \<Rightarrow>
       (\<exists>ob'. map_of h' (Ref NBVM 1) = Some ob' \<and> dict_get (data ob') ''vcpus'' = PInt 4 \<and>
          count_list (updated_items ob') ''vcpus'' = 0) \<and>
       (\<forall>lv x y. (lv, Changed ''vcpus'' x y) \<notin> set l)"
  using numeric_tolerance [of "[(Ref NBVM 1, vm_1)]" "Ref NBVM 1" vm_1 "''vcpus''"
      "[(''vcpus'', PFloat (Finite 4))]" "PFloat (Finite 4)" "run_rt 0" "Finite 4" "Finite 4" None]
  by (simp add: vm_1_def dict_get_def default_object_def inventory_keeps_def plain_rt_def)

text \<open>The example of the claim, run: a stored \<open>4\<close> and a new \<open>4.0\<close>.\<close>

lemma numeric_scenario:
  "update (run_rt 0) (Ref NBVM 1) (PDict [(''vcpus'', PFloat (Finite 4))]) False None
          [(Ref NBVM 1, vm_1)]
   = (Inr (PDict [(''vcpus'', PFloat (Finite 4))]), [(Ref NBVM 1, vm_1)],
      [(Debug2, Parsing (PStr ''vm1''))])"
  by code_simp


end
